theory Spec2Isabelle
  imports Main "HOL-Library.Word"
begin

section \<open>Outcomes of the daemon's procedures\<close>

text \<open>
  The daemon is a C program.  Every procedure of \<^verbatim>\<open>repmgrd.c\<close> modelled here
  either returns, leaves the process through \<^verbatim>\<open>exit(code)\<close>, or executes an
  operation whose behaviour C leaves undefined (reading a variable that was never
  written, indexing past an array, passing a null or released pointer to a library
  routine).  The three cases are the constructors of \<open>outcome\<close>; undefined
  behaviour is an explicit value and is never given a meaning.

  Texts are HOL strings.  The fixed buffers of the source (\<^verbatim>\<open>MAXLEN\<close> characters
  for a value copied with \<^verbatim>\<open>strncpy\<close>, \<^verbatim>\<open>QUERY_STR_LEN\<close> or 8192 for a
  statement) are taken to be large enough for what the database returns and the
  configuration holds.  What the database, the peers and the helper routines of the
  other source files (\<^verbatim>\<open>establishDBConnection\<close>, \<^verbatim>\<open>getMasterConnection\<close>,
  \<^verbatim>\<open>is_standby\<close>) answer is a parameter of each procedure, its environment.
\<close>

datatype exit_code =
  SUCCESS | ERR_BAD_CONFIG | ERR_BAD_QUERY | ERR_DB_CON | ERR_DB_QUERY
  | ERR_PROMOTED | ERR_FAILOVER_FAIL

datatype ub =
    UninitResult        \<comment> \<open>a \<^verbatim>\<open>PGresult *\<close> that was never assigned is dereferenced\<close>
  | ClearedResult       \<comment> \<open>a \<^verbatim>\<open>PGresult *\<close> is used after \<^verbatim>\<open>PQclear\<close>\<close>
  | NullString          \<comment> \<open>\<^verbatim>\<open>sscanf\<close> is handed the null pointer\<close>
  | NodesOutOfBounds nat \<comment> \<open>\<^verbatim>\<open>nodes[i]\<close> with \<open>i\<close> past the 50 entries\<close>
  | UninitNode nat      \<comment> \<open>a field of \<^verbatim>\<open>nodes[i]\<close> is read before it was written\<close>
  | UninitValue         \<comment> \<open>an indeterminate LSN word is compared\<close>
  | ScanOverflow        \<comment> \<open>\<^verbatim>\<open>%X\<close> converts a number that does not fit the object\<close>

datatype 'a outcome = Undefined ub | Exit exit_code | Returns 'a

datatype log_level = LOG_ERR | LOG_WARNING | LOG_NOTICE | LOG_INFO

section \<open>Scanning a log location: \<^verbatim>\<open>sscanf(s, "%X/%X", &a, &b)\<close>\<close>

text \<open>
  Both \<^verbatim>\<open>walLocationToBytes\<close> and \<^verbatim>\<open>do_failover\<close> read a location with the
  format \<^verbatim>\<open>"%X/%X"\<close>.  The conversion \<^verbatim>\<open>%X\<close> skips white space, then takes an
  optional sign, an optional \<^verbatim>\<open>0x\<close> prefix and the longest run of hexadecimal
  digits.  With no digit and no prefix the directive fails.  A prefix \<^verbatim>\<open>0x\<close> with
  no digit after it is read as the number 0 with the \<^verbatim>\<open>x\<close> consumed: the C
  library the daemon runs with has taken the \<^verbatim>\<open>0\<close> as a digit by the time it
  meets the \<^verbatim>\<open>x\<close>.  The character \<^verbatim>\<open>/\<close> of the format must be the next input
  character.  Characters after the second number are left unread.  The objects are
  \<^verbatim>\<open>unsigned int\<close>, 32 bits wide; a number that does not fit is undefined
  behaviour in C, and a minus sign negates the number within the 32 bits.
\<close>

definition isspace :: "char \<Rightarrow> bool" where
  "isspace c \<longleftrightarrow> (of_char c :: nat) = 32 \<or> (9 \<le> (of_char c :: nat) \<and> (of_char c :: nat) \<le> 13)"

definition isxdigit :: "char \<Rightarrow> bool" where
  "isxdigit c \<longleftrightarrow>
     (let n = (of_char c :: nat)
      in (48 \<le> n \<and> n \<le> 57) \<or> (65 \<le> n \<and> n \<le> 70) \<or> (97 \<le> n \<and> n \<le> 102))"

definition xdigit_val :: "char \<Rightarrow> nat" where
  "xdigit_val c =
     (let n = (of_char c :: nat)
      in if n \<le> 57 then n - 48 else if n \<le> 70 then n - 55 else n - 87)"

definition hex_value :: "string \<Rightarrow> nat" where
  "hex_value ds = foldl (\<lambda>a c. 16 * a + xdigit_val c) 0 ds"

fun scan_sign :: "string \<Rightarrow> bool \<times> string" where
  "scan_sign [] = (False, [])"
| "scan_sign (c # r) =
     (if c = CHR ''-'' then (True, r)
      else if c = CHR ''+'' then (False, r)
      else (False, c # r))"

fun scan_0x :: "string \<Rightarrow> bool \<times> string" where
  "scan_0x (a # b # r) =
     (if a = CHR ''0'' \<and> (b = CHR ''x'' \<or> b = CHR ''X'') then (True, r)
      else (False, a # b # r))"
| "scan_0x s = (False, s)"

datatype conv = NoConv | ConvOverflow | Conv "32 word" string

definition scan_X :: "string \<Rightarrow> conv" where
  "scan_X s =
     (let (neg, s2) = scan_sign (dropWhile isspace s);
          (prefixed, s3) = scan_0x s2;
          ds = takeWhile isxdigit s3;
          rest = dropWhile isxdigit s3
      in if ds = [] \<and> \<not> prefixed then NoConv
         else if 2 ^ 32 \<le> hex_value ds then ConvOverflow
         else Conv (if neg then - of_nat (hex_value ds) else of_nat (hex_value ds)) rest)"

text \<open>
  The result of the whole call: how many of the two objects were assigned, and with
  what.  The source only compares the returned count with 2, so the end-of-input
  return value and the count 0 are one constructor.
\<close>

datatype scanned = ScanUB | Scan0 | Scan1 "32 word" | Scan2 "32 word" "32 word"

definition sscanf_XX :: "string \<Rightarrow> scanned" where
  "sscanf_XX s =
     (case scan_X s of
        NoConv \<Rightarrow> Scan0
      | ConvOverflow \<Rightarrow> ScanUB
      | Conv a r1 \<Rightarrow>
          (case r1 of
             [] \<Rightarrow> Scan1 a
           | c # r2 \<Rightarrow>
               if c \<noteq> CHR ''/'' then Scan1 a
               else (case scan_X r2 of
                       NoConv \<Rightarrow> Scan1 a
                     | ConvOverflow \<Rightarrow> ScanUB
                     | Conv b r3 \<Rightarrow> Scan2 a b)))"

section \<open>\<^verbatim>\<open>walLocationToBytes\<close>\<close>

text \<open>
  \<^verbatim>\<open>
  if (sscanf(wal_location, "%X/%X", &xlogid, &xrecoff) != 2)
  {
      log_err("wrong log location format: %s\n", wal_location);
      return 0;
  }
  return (( (long long) xlogid * 16 * 1024 * 1024 * 255) + xrecoff);
  \<close>
  The product is formed in \<^verbatim>\<open>long long\<close> and returned as
  \<^verbatim>\<open>unsigned long long\<close>: 64-bit two's complement arithmetic, which is the
  arithmetic of \<open>64 word\<close>.  For segment numbers above \<^verbatim>\<open>0x80808080\<close> the
  product leaves the range of \<^verbatim>\<open>long long\<close>; the model takes the wrapped value
  that the machine multiplication gives, and the conversion to the unsigned return
  type makes it the product modulo \<open>2 ^ 64\<close>.  The function returns the lines it
  logs with the number.
\<close>

type_synonym logline = "log_level \<times> string"

definition walLocationToBytes :: "string \<Rightarrow> (logline list \<times> 64 word) outcome" where
  "walLocationToBytes wal_location =
     (case sscanf_XX wal_location of
        ScanUB \<Rightarrow> Undefined ScanOverflow
      | Scan2 xlogid xrecoff \<Rightarrow>
          Returns ([], (ucast xlogid :: 64 word) * 16 * 1024 * 1024 * 255 + ucast xrecoff)
      | _ \<Rightarrow>
          Returns ([(LOG_ERR, ''wrong log location format: '' @ wal_location)], 0))"

text \<open>
  A hexadecimal field of a location text: a non-empty run of hexadecimal digits whose
  value is a 32-bit word.  \<open>stops_number\<close> holds of an input on which the longest
  run of digits before it ends.
\<close>

definition hex_field :: "string \<Rightarrow> bool" where
  "hex_field h \<longleftrightarrow> h \<noteq> [] \<and> (\<forall>c\<in>set h. isxdigit c) \<and> hex_value h < 2 ^ 32"

definition stops_number :: "string \<Rightarrow> bool" where
  "stops_number rest \<longleftrightarrow>
     (case rest of [] \<Rightarrow> True | c # _ \<Rightarrow> \<not> isxdigit c \<and> c \<noteq> CHR ''x'' \<and> c \<noteq> CHR ''X'')"


text \<open>
  Two notions of a location text.  \<open>two_hex_fields\<close> is the external form: two
  non-empty runs of hexadecimal digits with a slash between them and nothing else.
  \<open>scannable\<close> is the wider form that the format \<^verbatim>\<open>"%X/%X"\<close> lets through:
  each number may begin with white space, a sign and a \<^verbatim>\<open>0x\<close> prefix, its digits
  may be missing after such a prefix, and anything may follow the second number.
\<close>

definition two_hex_fields :: "string \<Rightarrow> bool" where
  "two_hex_fields s \<longleftrightarrow>
     (\<exists>h1 h2. s = h1 @ ''/'' @ h2 \<and> h1 \<noteq> [] \<and> h2 \<noteq> []
        \<and> (\<forall>c \<in> set h1. isxdigit c) \<and> (\<forall>c \<in> set h2. isxdigit c))"

definition number_text :: "string \<Rightarrow> bool" where
  "number_text n \<longleftrightarrow>
     (\<exists>ws sg px h. n = ws @ sg @ px @ h \<and> (\<forall>c \<in> set ws. isspace c)
        \<and> sg \<in> {[], ''-'', ''+''} \<and> px \<in> {[], ''0x'', ''0X''}
        \<and> (\<forall>c \<in> set h. isxdigit c) \<and> (h \<noteq> [] \<or> px \<noteq> []))"

definition scannable :: "string \<Rightarrow> bool" where
  "scannable s \<longleftrightarrow>
     (\<exists>n1 n2 rest. s = n1 @ ''/'' @ n2 @ rest \<and> number_text n1 \<and> number_text n2)"

section \<open>Configuration, globals and the cluster tables\<close>

text \<open>
  \<^verbatim>\<open>t_configuration_options\<close> is filled by \<^verbatim>\<open>parse_config\<close>; the fields are those
  the daemon reads.  The two shell commands are the names \<^verbatim>\<open>promote_command\<close>
  and \<^verbatim>\<open>follow_command\<close> that \<^verbatim>\<open>do_failover\<close> hands to \<^verbatim>\<open>system\<close>.
\<close>

datatype failover_mode = MANUAL_FAILOVER | AUTOMATIC_FAILOVER | NO_FAILOVER

record t_configuration_options =
  node :: int
  cluster_name :: string
  conninfo :: string
  failover :: failover_mode

text \<open>
  The file-level variables of \<^verbatim>\<open>repmgrd.c\<close> that the modelled procedures read:
  \<^verbatim>\<open>
  char    myClusterName[MAXLEN];
  t_configuration_options local_options;
  int     myLocalId   = -1;
  \<close>
\<close>

record globals =
  myClusterName :: string
  local_options :: t_configuration_options
  myLocalId :: int
  promote_command :: string
  follow_command :: string

text \<open>
  \<^verbatim>\<open>main\<close> up to the configuration check: \<^verbatim>\<open>parse_config\<close> stores the file's
  settings in \<^verbatim>\<open>local_options\<close> and the daemon leaves when no node is given.
  Nothing in the file assigns \<^verbatim>\<open>myLocalId\<close> or \<^verbatim>\<open>myClusterName\<close>: they
  keep their initial values, \<open>-1\<close> and the empty string of a zeroed array.
\<close>

definition main_config ::
  "t_configuration_options \<Rightarrow> string \<Rightarrow> string \<Rightarrow> globals outcome" where
  "main_config parsed promote follow =
     (if node parsed = -1 then Exit ERR_BAD_CONFIG
      else Returns \<lparr> myClusterName = [], local_options = parsed, myLocalId = -1,
                     promote_command = promote, follow_command = follow \<rparr>)"

text \<open>A row of \<^verbatim>\<open>repl_nodes(id, cluster, conninfo)\<close>.\<close>

record node_row =
  row_id :: int
  row_cluster :: string
  row_conninfo :: string

text \<open>
  The statements the daemon sends, one constructor for each format string, with the
  arguments of the format.
\<close>

datatype sql =
    SelectReplayLocation
      \<comment> \<open>\<^verbatim>\<open>SELECT pg_last_xlog_replay_location()\<close>\<close>
  | UpdateStandbyLocation string
      \<comment> \<open>\<^verbatim>\<open>SELECT pg_update_standby_location('%s')\<close>\<close>
  | SelectStandbyNodes int string
      \<comment> \<open>\<^verbatim>\<open>SELECT * FROM repl_nodes WHERE id IN (SELECT standby_node FROM repl_status
          WHERE standby_node <> %d) AND cluster = '%s'\<close>\<close>
  | GetLastStandbyLocation
      \<comment> \<open>\<^verbatim>\<open>SELECT repmgr_get_last_standby_location()\<close>\<close>
  | SelectXlogInfo
      \<comment> \<open>\<^verbatim>\<open>SELECT CURRENT_TIMESTAMP, pg_last_xlog_receive_location(),
          pg_last_xlog_replay_location()\<close>\<close>
  | SelectCurrentXlog
      \<comment> \<open>\<^verbatim>\<open>SELECT pg_current_xlog_location()\<close>\<close>
  | InsertMonitor int int string string string int int
      \<comment> \<open>\<^verbatim>\<open>INSERT INTO %s.repl_monitor VALUES(%d, %d, '%s'::timestamp with time zone,
          '%s', '%s', %lld, %lld)\<close>\<close>
  | SelectNode int string
      \<comment> \<open>\<^verbatim>\<open>SELECT * FROM %s.repl_nodes WHERE id = %d AND cluster = '%s'\<close>\<close>
  | InsertNode int string string
      \<comment> \<open>\<^verbatim>\<open>INSERT INTO %s.repl_nodes VALUES (%d, '%s', '%s')\<close>\<close>

datatype conn = LocalConn | PrimaryConn | NodeConn string

datatype event =
    Log log_level string
  | Exec conn sql           \<comment> \<open>\<^verbatim>\<open>PQexec\<close>\<close>
  | SendQuery sql           \<comment> \<open>\<^verbatim>\<open>PQsendQuery(primaryConn, ...)\<close> accepted\<close>
  | CancelRequest           \<comment> \<open>\<^verbatim>\<open>CancelQuery()\<close>\<close>
  | Connect string          \<comment> \<open>\<^verbatim>\<open>establishDBConnection\<close>\<close>
  | Reset                   \<comment> \<open>\<^verbatim>\<open>PQreset(primaryConn)\<close>\<close>
  | GetMasterConnection     \<comment> \<open>\<^verbatim>\<open>primaryConn = getMasterConnection(...)\<close>\<close>
  | Finish conn             \<comment> \<open>\<^verbatim>\<open>PQfinish\<close>\<close>
  | System string           \<comment> \<open>\<^verbatim>\<open>system(command)\<close>\<close>

section \<open>\<^verbatim>\<open>%X\<close> on output\<close>

definition xdigit_char :: "nat \<Rightarrow> char" where
  "xdigit_char d = ''0123456789ABCDEF'' ! d"

function printf_X :: "nat \<Rightarrow> string" where
  "printf_X n = (if n < 16 then [xdigit_char n] else printf_X (n div 16) @ [xdigit_char (n mod 16)])"
  by pat_completeness auto
termination
  by (relation "measure id") auto

declare printf_X.simps [simp del]

section \<open>The election: \<^verbatim>\<open>do_failover\<close>\<close>

subsection \<open>Candidate records\<close>

text \<open>
  \<^verbatim>\<open>
  typedef struct nodeInfo
  {
      int nodeId;
      XLogRecPtr xlog_location;
      bool is_ready;
  } nodeInfo;
  \<close>
  \<^verbatim>\<open>XLogRecPtr\<close> is the pair of 32-bit words \<^verbatim>\<open>xlogid\<close>, \<^verbatim>\<open>xrecoff\<close>.  The
  array \<^verbatim>\<open>nodes[50]\<close> and the variables \<^verbatim>\<open>uxlogid\<close>, \<^verbatim>\<open>uxrecoff\<close> live
  on the stack and start unwritten: every cell is an option, \<open>None\<close> until the
  first assignment.
\<close>

record XLogRecPtr =
  xlogid :: "32 word option"
  xrecoff :: "32 word option"

record nodeInfo =
  nodeId :: "int option"
  xlog_location :: XLogRecPtr
  is_ready :: "bool option"

definition unwritten_node :: nodeInfo where
  "unwritten_node =
     \<lparr> nodeId = None, xlog_location = \<lparr> xlogid = None, xrecoff = None \<rparr>, is_ready = None \<rparr>"

text \<open>
  \<^verbatim>\<open>XLByteLT(a, b)\<close> is
  \<^verbatim>\<open>a.xlogid < b.xlogid || (a.xlogid == b.xlogid && a.xrecoff < b.xrecoff)\<close>;
  the offsets are read only when the segment numbers are equal.
\<close>

definition XLByteLT :: "XLogRecPtr \<Rightarrow> XLogRecPtr \<Rightarrow> bool outcome" where
  "XLByteLT a b =
     (case (xlogid a, xlogid b) of
        (Some ai, Some bi) \<Rightarrow>
          if ai < bi then Returns True
          else if ai = bi then
            (case (xrecoff a, xrecoff b) of
               (Some ao, Some bo) \<Rightarrow> Returns (ao < bo)
             | _ \<Rightarrow> Undefined UninitValue)
          else Returns False
      | _ \<Rightarrow> Undefined UninitValue)"

subsection \<open>Results and the environment of an election\<close>

text \<open>
  What a probe of one peer meets: \<^verbatim>\<open>establishDBConnection\<close> gives a connection
  that is not \<^verbatim>\<open>CONNECTION_OK\<close>; or the query does not end in
  \<^verbatim>\<open>PGRES_TUPLES_OK\<close>; or it returns rows, of which column 0 is kept.
\<close>

datatype probe = ConnectionBad | QueryFailed | TuplesOk "string list"

text \<open>
  The variable \<^verbatim>\<open>res2\<close>: never assigned, holding a result, or released by
  \<^verbatim>\<open>PQclear\<close>.  \<^verbatim>\<open>PQgetvalue(res, row, 0)\<close> returns the null pointer for a row
  the result does not have.
\<close>

datatype res_handle = Unassigned | Live "string list" | Cleared

definition PQgetvalue :: "res_handle \<Rightarrow> nat \<Rightarrow> string option outcome" where
  "PQgetvalue res tup =
     (case res of
        Unassigned \<Rightarrow> Undefined UninitResult
      | Cleared \<Rightarrow> Undefined ClearedResult
      | Live rows \<Rightarrow> Returns (if tup < length rows then Some (rows ! tup) else None))"

record failover_env =
  replay_location :: "string option"
    \<comment> \<open>the answer to \<^verbatim>\<open>SELECT pg_last_xlog_replay_location()\<close>, \<open>None\<close> when the
        status is not \<^verbatim>\<open>PGRES_TUPLES_OK\<close>\<close>
  repl_nodes :: "node_row list"
  repl_status :: "int list"      \<comment> \<open>column \<^verbatim>\<open>standby_node\<close> of \<^verbatim>\<open>repl_status\<close>\<close>
  nodes_query_ok :: bool
  node_probe :: "string \<Rightarrow> probe" \<comment> \<open>by connection string\<close>

definition standby_nodes_query :: "failover_env \<Rightarrow> int \<Rightarrow> string \<Rightarrow> node_row list" where
  "standby_nodes_query env excluded cluster =
     filter (\<lambda>r. row_id r \<in> set (filter (\<lambda>s. s \<noteq> excluded) (repl_status env))
                 \<and> row_cluster r = cluster)
            (repl_nodes env)"

subsection \<open>The locals of \<^verbatim>\<open>do_failover\<close>\<close>

record election =
  nodes :: "nodeInfo list"
  visible_nodes :: int
  uxlogid :: "32 word option"
  uxrecoff :: "32 word option"
  res2 :: res_handle
  trace :: "event list"

definition initial_election :: "event list \<Rightarrow> election" where
  "initial_election t =
     \<lparr> nodes = replicate 50 unwritten_node, visible_nodes = 1,
       uxlogid = None, uxrecoff = None, res2 = Unassigned, trace = t \<rparr>"

fun obind :: "'a outcome \<Rightarrow> ('a \<Rightarrow> 'b outcome) \<Rightarrow> 'b outcome" where
  "obind (Returns x) f = f x"
| "obind (Undefined u) f = Undefined u"
| "obind (Exit c) f = Exit c"

text \<open>
  \<^verbatim>\<open>
  if (sscanf(PQgetvalue(res2, i, 0), "%X/%X", &uxlogid, &uxrecoff) != 2)
      log_info(_("could not parse transaction log location \"%s\"", ...));
  \<close>
  A failed scan leaves the objects it did not reach as they were.
\<close>

definition scan_location :: "res_handle \<Rightarrow> nat \<Rightarrow> election \<Rightarrow> election outcome" where
  "scan_location res i st =
     obind (PQgetvalue res i) (\<lambda>v.
       case v of
         None \<Rightarrow> Undefined NullString
       | Some s \<Rightarrow>
           (case sscanf_XX s of
              ScanUB \<Rightarrow> Undefined ScanOverflow
            | Scan2 a b \<Rightarrow> Returns (st\<lparr> uxlogid := Some a, uxrecoff := Some b \<rparr>)
            | Scan1 a \<Rightarrow>
                Returns (st\<lparr> uxlogid := Some a,
                  trace := trace st @ [Log LOG_INFO ''could not parse transaction log location''] \<rparr>)
            | Scan0 \<Rightarrow>
                Returns (st\<lparr> trace := trace st
                   @ [Log LOG_INFO ''could not parse transaction log location''] \<rparr>)))"

subsection \<open>Asking the other nodes\<close>

text \<open>
  One turn of the loop \<^verbatim>\<open>for (i = 0; i < PQntuples(res1); i++)\<close> on row \<open>i\<close>
  of the node list.  The loop has no bound on \<open>i\<close> other than the number of rows, and
  \<^verbatim>\<open>nodes\<close> has 50 entries: the assignment \<^verbatim>\<open>nodes[i].is_ready = false\<close> with
  \<open>50 \<le> i\<close> lies outside the array, which C leaves undefined, and the model stops
  there.  What a given build does after such a write is not part of the model; the
  properties of the election below are stated for node lists of at most 50 rows or
  evaluated on short ones.
\<close>

definition probe_node :: "(string \<Rightarrow> probe) \<Rightarrow> node_row \<Rightarrow> nat \<Rightarrow> election \<Rightarrow> election outcome" where
  "probe_node pr row i st =
     (if 50 \<le> i then Undefined (NodesOutOfBounds i)
      else
        let st1 = st\<lparr> nodes := (nodes st)[i := (nodes st ! i)\<lparr> is_ready := Some False \<rparr>],
                      trace := trace st @ [Connect (row_conninfo row)] \<rparr>
        in case pr (row_conninfo row) of
             ConnectionBad \<Rightarrow> Returns st1
           | QueryFailed \<Rightarrow>
               Returns (st1\<lparr> res2 := Cleared,
                 trace := trace st1 @ [Exec (NodeConn (row_conninfo row)) GetLastStandbyLocation,
                                        Log LOG_INFO ''Can't get node's last standby location'',
                                        Finish (NodeConn (row_conninfo row))] \<rparr>)
           | TuplesOk rows \<Rightarrow>
               (let st2 = st1\<lparr> res2 := Live rows, visible_nodes := visible_nodes st1 + 1,
                              trace := trace st1
                                @ [Exec (NodeConn (row_conninfo row)) GetLastStandbyLocation] \<rparr>
                in obind (scan_location (res2 st2) i st2) (\<lambda>st3.
                     Returns (st3\<lparr> nodes := (nodes st3)[i :=
                                      \<lparr> nodeId = Some (row_id row),
                                        xlog_location = \<lparr> xlogid = uxlogid st3, xrecoff = uxrecoff st3 \<rparr>,
                                        is_ready = Some True \<rparr>],
                                    res2 := Cleared,
                                    trace := trace st3 @ [Finish (NodeConn (row_conninfo row))] \<rparr>))))"

fun probe_nodes :: "(string \<Rightarrow> probe) \<Rightarrow> node_row list \<Rightarrow> nat \<Rightarrow> election \<Rightarrow> election outcome" where
  "probe_nodes pr [] i st = Returns st"
| "probe_nodes pr (row # rows) i st =
     obind (probe_node pr row i st) (probe_nodes pr rows (Suc i))"

subsection \<open>Choosing the best candidate\<close>

text \<open>
  One turn of \<^verbatim>\<open>for (i = 0; i <= numelm; i++)\<close>: the entry's flag is read first,
  its location only when the flag is set.
\<close>

definition compare_candidate :: "nodeInfo list \<Rightarrow> nat \<Rightarrow> nodeInfo \<Rightarrow> nodeInfo outcome" where
  "compare_candidate ns i best =
     (if length ns \<le> i then Undefined (NodesOutOfBounds i)
      else case is_ready (ns ! i) of
             None \<Rightarrow> Undefined (UninitNode i)
           | Some False \<Rightarrow> Returns best
           | Some True \<Rightarrow>
               obind (XLByteLT (xlog_location best) (xlog_location (ns ! i))) (\<lambda>lt.
                 if lt
                 then Returns \<lparr> nodeId = nodeId (ns ! i),
                                xlog_location = \<lparr> xlogid = xlogid (xlog_location (ns ! i)),
                                                  xrecoff = xrecoff (xlog_location (ns ! i)) \<rparr>,
                                is_ready = is_ready (ns ! i) \<rparr>
                 else Returns best))"

function best_candidate_from :: "nodeInfo list \<Rightarrow> nat \<Rightarrow> nat \<Rightarrow> nodeInfo \<Rightarrow> nodeInfo outcome" where
  "best_candidate_from ns numelm i best =
     (if i \<le> numelm
      then obind (compare_candidate ns i best) (best_candidate_from ns numelm (Suc i))
      else Returns best)"
  by pat_completeness auto
termination
  by (relation "measure (\<lambda>(ns, numelm, i, best). Suc numelm - i)") auto

declare best_candidate_from.simps [simp del]

subsection \<open>The procedure\<close>

text \<open>
  The part after the quorum test: the seed of \<^verbatim>\<open>best_candidate\<close> read through
  \<^verbatim>\<open>res2\<close> at row \<^verbatim>\<open>i\<close> (which is \<^verbatim>\<open>numelm\<close> by then), the comparison loop,
  the command and the new local connection.
\<close>

definition elect :: "globals \<Rightarrow> nat \<Rightarrow> election \<Rightarrow> event list outcome" where
  "elect g numelm st =
     obind (scan_location (res2 st) numelm st) (\<lambda>st'.
       obind (best_candidate_from (nodes st') numelm 0
                \<lparr> nodeId = Some (myLocalId g),
                  xlog_location = \<lparr> xlogid = uxlogid st', xrecoff = uxrecoff st' \<rparr>,
                  is_ready = Some True \<rparr>) (\<lambda>best.
         case nodeId best of
           None \<Rightarrow> Undefined UninitValue
         | Some n \<Rightarrow>
             Returns (trace st'
               @ [System (if n = myLocalId g then promote_command g else follow_command g),
                  Connect (conninfo (local_options g))])))"

text \<open>
  What has been sent on the local connection when the probes start: the query for the
  node's own replay location, its publication, and the query for the other nodes.
\<close>

definition announced :: "globals \<Rightarrow> string \<Rightarrow> event list" where
  "announced g last_wal_standby_applied =
     [Exec LocalConn SelectReplayLocation,
      Exec LocalConn (UpdateStandbyLocation last_wal_standby_applied),
      Exec LocalConn (SelectStandbyNodes (myLocalId g) (myClusterName g))]"

definition do_failover :: "globals \<Rightarrow> failover_env \<Rightarrow> event list \<times> unit outcome" where
  "do_failover g env =
     (case replay_location env of
        None \<Rightarrow>
          ([Exec LocalConn SelectReplayLocation,
            Log LOG_ERR ''PQexec failed. Report an invalid value to not be considered as new primary and exit.'',
            Exec LocalConn (UpdateStandbyLocation (printf_X 0 @ ''/'' @ printf_X 0))],
           Exit ERR_DB_QUERY)
      | Some last_wal_standby_applied \<Rightarrow>
          let t = announced g last_wal_standby_applied
          in if \<not> nodes_query_ok env
             then (t @ [Log LOG_ERR ''Can't get nodes info'', Finish LocalConn], Exit ERR_BAD_QUERY)
             else
               let res1 = standby_nodes_query env (myLocalId g) (myClusterName g)
               in case probe_nodes (node_probe env) res1 0 (initial_election t) of
                    Undefined u \<Rightarrow> (t, Undefined u)
                  | Exit c \<Rightarrow> (t, Exit c)
                  | Returns st \<Rightarrow>
                      let total_nodes = 1 + int (length res1);
                          numelm = length res1;
                          t' = trace st @ [Finish LocalConn]
                      in if visible_nodes st < total_nodes div 2
                         then (t' @ [Log LOG_ERR ''Can't reach most of the nodes''], Exit ERR_FAILOVER_FAIL)
                         else (case elect g numelm (st\<lparr> trace := t' \<rparr>) of
                                 Undefined u \<Rightarrow> (t', Undefined u)
                               | Exit c \<Rightarrow> (t', Exit c)
                               | Returns t'' \<Rightarrow> (t'', Returns ())))"

subsection \<open>Notions used to state the election's properties\<close>

text \<open>
  A peer is reachable when its connection and its position query both succeed.  The
  listed peers are the rows the node query returns for the daemon's globals.  A trace
  is quiet when it holds only log lines, queries, and the opening and closing of
  connections; it has no command when \<^verbatim>\<open>system\<close> was never called.  The probes are answerable
  when the loop over the peers meets no undefined operation: at most 50 rows, and for
  each reachable peer a text in the row that \<^verbatim>\<open>PQgetvalue(res2, i, 0)\<close> reads
  whose numbers fit 32 bits.
\<close>

definition reachable :: "failover_env \<Rightarrow> node_row \<Rightarrow> bool" where
  "reachable env r = (case node_probe env (row_conninfo r) of TuplesOk rows \<Rightarrow> True | _ \<Rightarrow> False)"

definition listed_peers :: "globals \<Rightarrow> failover_env \<Rightarrow> node_row list" where
  "listed_peers g env = standby_nodes_query env (myLocalId g) (myClusterName g)"

definition election_event :: "event \<Rightarrow> bool" where
  "election_event e =
     (case e of Log l m \<Rightarrow> True | Exec c q \<Rightarrow> True | Connect c \<Rightarrow> True | Finish c \<Rightarrow> True
      | _ \<Rightarrow> False)"

definition quiet :: "event list \<Rightarrow> bool" where
  "quiet t = (\<forall>e \<in> set t. election_event e)"

definition no_command :: "event list \<Rightarrow> bool" where
  "no_command t = (\<forall>e \<in> set t. case e of System c \<Rightarrow> False | _ \<Rightarrow> True)"

definition probes_answerable :: "failover_env \<Rightarrow> node_row list \<Rightarrow> bool" where
  "probes_answerable env peers \<longleftrightarrow>
     length peers \<le> 50 \<and>
     (\<forall>i < length peers.
        case node_probe env (row_conninfo (peers ! i)) of
          TuplesOk rows \<Rightarrow> i < length rows \<and> sscanf_XX (rows ! i) \<noteq> ScanUB
        | _ \<Rightarrow> True)"

text \<open>An election proceeds when the daemon goes on to ask for the other nodes.\<close>

definition asks_for_nodes :: "event \<Rightarrow> bool" where
  "asks_for_nodes e = (case e of Exec LocalConn (SelectStandbyNodes i c) \<Rightarrow> True | _ \<Rightarrow> False)"

definition election_proceeds :: "event list \<Rightarrow> bool" where
  "election_proceeds t \<longleftrightarrow> filter asks_for_nodes t \<noteq> []"

section \<open>The monitoring step: \<^verbatim>\<open>MonitorExecute\<close>\<close>

subsection \<open>The connection to the primary\<close>

text \<open>
  What the daemon's state holds about \<^verbatim>\<open>primaryConn\<close>: whether its status is
  \<^verbatim>\<open>CONNECTION_OK\<close>; whether a command sent with \<^verbatim>\<open>PQsendQuery\<close> has not had its
  result taken yet (which is what \<^verbatim>\<open>PQisBusy\<close> reports to a client that never reads
  input in between); and how many of the daemon's asynchronous inserts the primary
  has neither finished nor abandoned.  \<open>primary_node\<close> is
  \<^verbatim>\<open>primary_options.node\<close>.  Every step is appended to \<open>events\<close> together with
  the number of inserts outstanding after it.
\<close>

record daemon =
  primary_ok :: bool
  primary_busy :: bool
  outstanding :: nat
  primary_node :: int
  events :: "(event \<times> nat) list"

definition append_step :: "event \<Rightarrow> daemon \<Rightarrow> daemon" where
  "append_step e d = d\<lparr> events := events d @ [(e, outstanding d)] \<rparr>"

definition append_steps :: "event list \<Rightarrow> daemon \<Rightarrow> daemon" where
  "append_steps es d = d\<lparr> events := events d @ map (\<lambda>e. (e, outstanding d)) es \<rparr>"

text \<open>
  The library calls on that connection, after the libpq interface:
  \<^item> \<^verbatim>\<open>PQreset\<close> closes the connection and opens it again; nothing sent before
    survives.
  \<^item> \<^verbatim>\<open>CancelQuery\<close> (\<^verbatim>\<open>PQgetCancel\<close>, \<^verbatim>\<open>PQcancel\<close>) asks the server to abandon
    the command in progress; when the request cannot be delivered a warning is logged.
    The result of the abandoned command is still to be taken.
  \<^item> \<^verbatim>\<open>PQexec\<close> first waits for a command in progress and discards its result.
  \<^item> \<^verbatim>\<open>PQsendQuery\<close> returns 0 when the connection is bad, when a command is still
    in progress, or when the query cannot be transmitted; otherwise the command is
    sent and the call returns at once.
\<close>

definition PQreset_primary :: "bool \<Rightarrow> daemon \<Rightarrow> daemon" where
  "PQreset_primary restored d =
     append_step Reset (d\<lparr> primary_ok := restored, primary_busy := False, outstanding := 0 \<rparr>)"

definition CancelQuery :: "bool \<Rightarrow> daemon \<Rightarrow> daemon" where
  "CancelQuery delivered d =
     (if delivered then append_step CancelRequest (d\<lparr> outstanding := 0 \<rparr>)
      else append_step (Log LOG_WARNING ''Can't stop current query'') (append_step CancelRequest d))"

definition PQexec_primary :: "sql \<Rightarrow> daemon \<Rightarrow> daemon" where
  "PQexec_primary q d =
     append_step (Exec PrimaryConn q) (d\<lparr> primary_busy := False, outstanding := 0 \<rparr>)"

definition PQsendQuery :: "bool \<Rightarrow> sql \<Rightarrow> daemon \<Rightarrow> daemon" where
  "PQsendQuery transmitted q d =
     (if primary_ok d \<and> \<not> primary_busy d \<and> transmitted
      then append_step (SendQuery q) (d\<lparr> primary_busy := True, outstanding := outstanding d + 1 \<rparr>)
      else append_step (Log LOG_WARNING ''Query could not be sent to primary'') d)"

text \<open>
  \<^verbatim>\<open>
  #define CloseConnections() \
      if (PQisBusy(primaryConn) == 1) CancelQuery(); \
      if (myLocalConn != NULL) PQfinish(myLocalConn); \
      if (primaryConn != NULL && primaryConn != myLocalConn) PQfinish(primaryConn);
  \<close>
\<close>

definition CloseConnections :: "bool \<Rightarrow> daemon \<Rightarrow> daemon" where
  "CloseConnections delivered d =
     (let d1 = (if primary_busy d then CancelQuery delivered d else d);
          d2 = append_step (Finish LocalConn) d1
      in append_step (Finish PrimaryConn)
           (d2\<lparr> primary_ok := False, primary_busy := False, outstanding := 0 \<rparr>))"

subsection \<open>The environment of one step\<close>

record monitor_env =
  reset_restores :: "nat \<Rightarrow> bool"
    \<comment> \<open>whether the \<open>k\<close>-th \<^verbatim>\<open>PQreset\<close> brings the connection back\<close>
  new_master :: "nat \<Rightarrow> int option"
    \<comment> \<open>the node that the \<open>k\<close>-th \<^verbatim>\<open>getMasterConnection\<close> connects to, if any\<close>
  election_env :: failover_env
  still_standby :: bool
    \<comment> \<open>\<^verbatim>\<open>is_standby(myLocalConn)\<close>\<close>
  cancel_delivered :: bool
  local_xlog :: "(string \<times> string \<times> string) option"
    \<comment> \<open>timestamp, received and replayed location of the standby; \<open>None\<close> when the
        query fails\<close>
  primary_xlog :: "string option"
    \<comment> \<open>current location of the primary; \<open>None\<close> when the query fails\<close>
  send_transmitted :: bool

subsection \<open>Losing and finding the primary\<close>

text \<open>
  \<^verbatim>\<open>
  for (connection_retries = 0; connection_retries < 15; connection_retries++)
  {
      if (PQstatus(primaryConn) != CONNECTION_OK)
      {   log_warning(...); sleep(20); PQreset(primaryConn);   }
      else
      {   if (connection_retries > 0) log_notice(...);
          break;   }
  }
  \<close>
\<close>

function restore_connection :: "monitor_env \<Rightarrow> nat \<Rightarrow> daemon \<Rightarrow> daemon" where
  "restore_connection env k d =
     (if k < 15
      then if \<not> primary_ok d
           then restore_connection env (Suc k)
                  (PQreset_primary (reset_restores env k)
                     (append_step (Log LOG_WARNING ''Connection to master has been lost, trying to recover...'') d))
           else if 0 < k
                then append_step (Log LOG_NOTICE ''Connection to master has been restored, continue monitoring.'') d
                else d
      else d)"
  by pat_completeness auto
termination
  by (relation "measure (\<lambda>(env, k, d). 15 - k)") auto

declare restore_connection.simps [simp del]

text \<open>
  The manual policy: six calls of \<^verbatim>\<open>getMasterConnection\<close>, each replacing
  \<^verbatim>\<open>primaryConn\<close> by what it returns.
\<close>

definition getMasterConnection :: "int option \<Rightarrow> daemon \<Rightarrow> daemon" where
  "getMasterConnection found d =
     append_step GetMasterConnection
       (d\<lparr> primary_ok := (found \<noteq> None), primary_busy := False, outstanding := 0,
           primary_node := (case found of Some n \<Rightarrow> n | None \<Rightarrow> primary_node d) \<rparr>)"

function find_new_master :: "monitor_env \<Rightarrow> nat \<Rightarrow> daemon \<Rightarrow> daemon" where
  "find_new_master env k d =
     (if k < 6
      then let d' = getMasterConnection (new_master env k) d
           in if primary_ok d'
              then append_step (Log LOG_ERR ''Connected to node, continue monitoring.'') d'
              else find_new_master env (Suc k)
                     (append_step (Log LOG_ERR ''We haven't found a new master, waiting before retry...'') d')
      else d)"
  by pat_completeness auto
termination
  by (relation "measure (\<lambda>(env, k, d). 6 - k)") auto

declare find_new_master.simps [simp del]

definition check_master :: "globals \<Rightarrow> monitor_env \<Rightarrow> daemon \<Rightarrow> daemon \<times> unit outcome" where
  "check_master g env d =
     (let d1 = restore_connection env 0 d
      in if primary_ok d1 then (d1, Returns ())
         else case failover (local_options g) of
                MANUAL_FAILOVER \<Rightarrow>
                  let d2 = find_new_master env 0
                             (append_step (Log LOG_ERR ''We couldn't reconnect to master. Now checking if another node has been promoted.'') d1)
                  in if \<not> primary_ok d2
                     then (append_step (Log LOG_ERR ''We couldn't reconnect for long enough, exiting...'') d2,
                           Exit ERR_DB_CON)
                     else (d2, Returns ())
              | AUTOMATIC_FAILOVER \<Rightarrow>
                  (append_steps (fst (do_failover g (election_env env))) d1,
                   snd (do_failover g (election_env env)))
              | NO_FAILOVER \<Rightarrow> (d1, Returns ()))"

subsection \<open>The sample\<close>

text \<open>
  \<^verbatim>\<open>
  lsn_primary = walLocationToBytes(last_wal_primary_location);
  lsn_standby_received = walLocationToBytes(last_wal_standby_received);
  lsn_standby_applied = walLocationToBytes(last_wal_standby_applied);
  sqlquery_snprintf(sqlquery, "INSERT INTO %s.repl_monitor VALUES(%d, %d, ..., %lld, %lld)",
                    ..., (lsn_primary - lsn_standby_received),
                    (lsn_standby_received - lsn_standby_applied));
  \<close>
  The three numbers are \<^verbatim>\<open>unsigned long long\<close>, the differences are taken modulo
  \<open>2 ^ 64\<close>, and \<^verbatim>\<open>%lld\<close> prints them as signed 64-bit numbers.
\<close>

definition lld :: "64 word \<Rightarrow> int" where
  "lld w = sint w"

definition monitor_insert ::
  "int \<Rightarrow> int \<Rightarrow> string \<Rightarrow> string \<Rightarrow> string \<Rightarrow> string \<Rightarrow> (logline list \<times> sql) outcome" where
  "monitor_insert primary standby monitor_standby_timestamp last_wal_primary_location
       last_wal_standby_received last_wal_standby_applied =
     obind (walLocationToBytes last_wal_primary_location) (\<lambda>(l1, lsn_primary).
     obind (walLocationToBytes last_wal_standby_received) (\<lambda>(l2, lsn_standby_received).
     obind (walLocationToBytes last_wal_standby_applied) (\<lambda>(l3, lsn_standby_applied).
       Returns (l1 @ l2 @ l3,
         InsertMonitor primary standby monitor_standby_timestamp
           last_wal_primary_location last_wal_standby_received
           (lld (lsn_primary - lsn_standby_received))
           (lld (lsn_standby_received - lsn_standby_applied))))))"

subsection \<open>The step\<close>

definition MonitorExecute :: "globals \<Rightarrow> monitor_env \<Rightarrow> daemon \<Rightarrow> daemon \<times> unit outcome" where
  "MonitorExecute g env d =
     (case check_master g env d of
        (d1, Returns u) \<Rightarrow>
          if \<not> still_standby env
          then (CloseConnections (cancel_delivered env)
                  (append_step (Log LOG_ERR ''It seems like we have been promoted, so exit from monitoring...'') d1),
                Exit ERR_PROMOTED)
          else
            let d2 = (if primary_busy d1 then CancelQuery (cancel_delivered env) d1 else d1);
                d3 = append_step (Exec LocalConn SelectXlogInfo) d2
            in (case local_xlog env of
                  None \<Rightarrow> (append_step (Log LOG_ERR ''PQexec failed'') d3, Returns ())
                | Some (monitor_standby_timestamp, last_wal_standby_received, last_wal_standby_applied) \<Rightarrow>
                    let d4 = PQexec_primary SelectCurrentXlog d3
                    in (case (if primary_ok d4 then primary_xlog env else None) of
                          None \<Rightarrow> (append_step (Log LOG_ERR ''PQexec failed'') d4, Returns ())
                        | Some last_wal_primary_location \<Rightarrow>
                            (case monitor_insert (primary_node d4) (node (local_options g))
                                    monitor_standby_timestamp last_wal_primary_location
                                    last_wal_standby_received last_wal_standby_applied of
                               Undefined ub \<Rightarrow> (d4, Undefined ub)
                             | Exit c \<Rightarrow> (d4, Exit c)
                             | Returns (logs, q) \<Rightarrow>
                                 (PQsendQuery (send_transmitted env) q
                                    (append_steps (map (\<lambda>(l, m). Log l m) logs) d4),
                                  Returns ()))))
      | (d1, Undefined ub) \<Rightarrow> (d1, Undefined ub)
      | (d1, Exit c) \<Rightarrow> (d1, Exit c))"

text \<open>
  \<^verbatim>\<open>MonitorCheck()\<close> is \<^verbatim>\<open>for (;;) { MonitorExecute(); sleep(3); }\<close>.  The loop
  has no end of its own; \<open>monitor_loop\<close> runs it for as many steps as there are
  environments in the list, or until a step leaves the process.
\<close>

fun monitor_loop :: "globals \<Rightarrow> monitor_env list \<Rightarrow> daemon \<Rightarrow> daemon \<times> unit outcome" where
  "monitor_loop g [] d = (d, Returns ())"
| "monitor_loop g (env # envs) d =
     (case MonitorExecute g env d of
        (d', Returns u) \<Rightarrow> monitor_loop g envs d'
      | (d', Undefined ub) \<Rightarrow> (d', Undefined ub)
      | (d', Exit c) \<Rightarrow> (d', Exit c))"

text \<open>The daemon as \<^verbatim>\<open>main\<close> enters the loop, connected to primary \<open>p\<close>.\<close>

definition fresh_daemon :: "int \<Rightarrow> daemon" where
  "fresh_daemon p =
     \<lparr> primary_ok = True, primary_busy = False, outstanding = 0, primary_node = p, events = [] \<rparr>"

section \<open>Self-registration: \<^verbatim>\<open>checkNodeConfiguration\<close>\<close>

text \<open>
  The procedure looks for the node's row through \<^verbatim>\<open>myLocalConn\<close>, the standby, and
  inserts it through \<^verbatim>\<open>primaryConn\<close>.  The standby replays what the primary wrote,
  later: the node table therefore appears twice, as the standby shows it and as it is
  on the primary.
\<close>

record registry =
  standby_view :: "node_row list"
  primary_table :: "node_row list"

record register_env =
  select_tuples_ok :: bool
    \<comment> \<open>the \<^verbatim>\<open>SELECT\<close> ends in \<^verbatim>\<open>PGRES_TUPLES_OK\<close>\<close>
  insert_returned :: bool
    \<comment> \<open>\<^verbatim>\<open>PQexec\<close> of the \<^verbatim>\<open>INSERT\<close> returns a result, not the null pointer\<close>
  insert_accepted :: bool
    \<comment> \<open>the primary stores the row\<close>
  close_cancel_delivered :: bool

text \<open>
  \<^verbatim>\<open>
  res = PQexec(myLocalConn, sqlquery);
  if (PQresultStatus(res) != PGRES_TUPLES_OK)
  {   log_err(...); PQclear(res); CloseConnections(); exit(ERR_BAD_CONFIG);   }
  if (PQntuples(res) == 0)
  {
      PQclear(res);
      log_info(...);
      sqlquery_snprintf(sqlquery, "INSERT INTO %s.repl_nodes VALUES (%d, '%s', '%s')", ...);
      if (!PQexec(primaryConn, sqlquery))
      {   log_err(...); CloseConnections(); exit(ERR_BAD_CONFIG);   }
  }
  PQclear(res);
  \<close>
  On the inserting path \<^verbatim>\<open>res\<close> is released twice; the second \<^verbatim>\<open>PQclear\<close>
  comes after the statement has been executed.
\<close>

definition checkNodeConfiguration ::
  "globals \<Rightarrow> register_env \<Rightarrow> registry \<Rightarrow> daemon \<Rightarrow> (registry \<times> daemon) \<times> unit outcome" where
  "checkNodeConfiguration g env reg d =
     (let id = node (local_options g);
          cluster = cluster_name (local_options g);
          d1 = append_step (Exec LocalConn (SelectNode id cluster))
                 (append_step (Log LOG_INFO ''Checking node in cluster'') d)
      in if \<not> select_tuples_ok env
         then ((reg, CloseConnections (close_cancel_delivered env)
                        (append_step (Log LOG_ERR ''PQexec failed'') d1)),
               Exit ERR_BAD_CONFIG)
         else if filter (\<lambda>r. row_id r = id \<and> row_cluster r = cluster) (standby_view reg) = []
         then
           let d2 = PQexec_primary (InsertNode id cluster (conninfo (local_options g)))
                      (append_step (Log LOG_INFO ''Adding node to cluster'') d1);
               reg' = (if insert_returned env \<and> insert_accepted env
                       then reg\<lparr> primary_table := primary_table reg
                                   @ [\<lparr> row_id = id, row_cluster = cluster,
                                        row_conninfo = conninfo (local_options g) \<rparr>] \<rparr>
                       else reg)
           in if \<not> insert_returned env
              then ((reg', CloseConnections (close_cancel_delivered env)
                             (append_step (Log LOG_ERR ''Cannot insert node details'') d2)),
                    Exit ERR_BAD_CONFIG)
              else ((reg', d2), Undefined ClearedResult)
         else ((reg, d1), Returns ()))"

subsection \<open>Notions used to state its properties\<close>

text \<open>
  The rows of the local node in a table; the standby after it has replayed the
  primary's table; the \<^verbatim>\<open>INSERT\<close> statements of a trace.
\<close>

definition own_rows :: "globals \<Rightarrow> node_row list \<Rightarrow> node_row list" where
  "own_rows g t =
     filter (\<lambda>r. row_id r = node (local_options g) \<and> row_cluster r = cluster_name (local_options g)) t"

definition replayed :: "registry \<Rightarrow> registry" where
  "replayed reg = reg\<lparr> standby_view := primary_table reg \<rparr>"

definition node_inserts :: "(event \<times> nat) list \<Rightarrow> sql list" where
  "node_inserts es =
     concat (map (\<lambda>(e, n). case e of Exec PrimaryConn (InsertNode i c s) \<Rightarrow> [InsertNode i c s]
                                   | _ \<Rightarrow> []) es)"

text \<open>Every query of a registration succeeds.\<close>

definition registering_env :: register_env where
  "registering_env =
     \<lparr> select_tuples_ok = True, insert_returned = True, insert_accepted = True,
       close_cancel_delivered = True \<rparr>"

definition empty_registry :: registry where
  "empty_registry = \<lparr> standby_view = [], primary_table = [] \<rparr>"

subsection \<open>Notions used to state the properties of the monitoring loop\<close>

text \<open>
  \<open>recorded_lag\<close> describes a statement as the sample of a step: the standby's and the
  primary's locations were read, each converts to a byte number, and the statement is
  the insert carrying the two differences as \<^verbatim>\<open>%lld\<close> prints them.
\<close>

definition recorded_lag :: "globals \<Rightarrow> monitor_env \<Rightarrow> int \<Rightarrow> sql \<Rightarrow> bool" where
  "recorded_lag g env primary q \<longleftrightarrow>
     (\<exists>ts p r a lp bp lr br la ba.
        local_xlog env = Some (ts, r, a) \<and> primary_xlog env = Some p
        \<and> walLocationToBytes p = Returns (lp, bp)
        \<and> walLocationToBytes r = Returns (lr, br)
        \<and> walLocationToBytes a = Returns (la, ba)
        \<and> q = InsertMonitor primary (node (local_options g)) ts p r
                 (lld (bp - br)) (lld (br - ba)))"

text \<open>
  A sample is due in a step that finds the primary connected and the node still a
  standby, whose two queries succeed with locations that convert, and whose insert
  can be transmitted.
\<close>

definition sample_due :: "monitor_env \<Rightarrow> daemon \<Rightarrow> bool" where
  "sample_due env d \<longleftrightarrow>
     primary_ok d \<and> still_standby env \<and> send_transmitted env
     \<and> (\<exists>ts p r a x y z.
          local_xlog env = Some (ts, r, a) \<and> primary_xlog env = Some p
          \<and> walLocationToBytes p = Returns x \<and> walLocationToBytes r = Returns y
          \<and> walLocationToBytes a = Returns z)"

text \<open>
  Reading a trace from the left, an insert is open from the moment it is sent until a
  cancel request or a reset of the connection follows.  The sends of a trace are
  separated when no insert is sent while another is open.
\<close>

fun open_after :: "bool \<Rightarrow> event list \<Rightarrow> bool" where
  "open_after opn [] = opn"
| "open_after opn (SendQuery q # es) = open_after True es"
| "open_after opn (CancelRequest # es) = open_after False es"
| "open_after opn (Reset # es) = open_after False es"
| "open_after opn (e # es) = open_after opn es"

fun separated :: "bool \<Rightarrow> event list \<Rightarrow> bool" where
  "separated opn [] = True"
| "separated opn (SendQuery q # es) = (\<not> opn \<and> separated True es)"
| "separated opn (CancelRequest # es) = separated False es"
| "separated opn (Reset # es) = separated False es"
| "separated opn (e # es) = separated opn es"

text \<open>The statements sent with \<^verbatim>\<open>PQsendQuery\<close>, in the order of a trace.\<close>

definition sent_queries :: "(event \<times> nat) list \<Rightarrow> sql list" where
  "sent_queries es = concat (map (\<lambda>(e, n). case e of SendQuery q \<Rightarrow> [q] | _ \<Rightarrow> []) es)"

text \<open>
  The invariant of the loop.  At every recorded step at most one insert was
  outstanding, and so it is now; an outstanding or open insert leaves the connection
  busy; and the sends are separated.  A connection is closed when it is not busy and
  no insert is open.  An inert step neither sends nor cancels nor resets.
\<close>

definition inert :: "event \<Rightarrow> bool" where
  "inert e = (case e of SendQuery q \<Rightarrow> False | CancelRequest \<Rightarrow> False | Reset \<Rightarrow> False | _ \<Rightarrow> True)"

definition depth_ok :: "daemon \<Rightarrow> bool" where
  "depth_ok d \<longleftrightarrow>
     (\<forall>(e, n) \<in> set (events d). n \<le> 1) \<and> outstanding d \<le> 1
     \<and> (0 < outstanding d \<longrightarrow> primary_busy d)
     \<and> separated False (map fst (events d))
     \<and> (open_after False (map fst (events d)) \<longrightarrow> primary_busy d)"

definition closed :: "daemon \<Rightarrow> bool" where
  "closed d \<longleftrightarrow> \<not> primary_busy d \<and> \<not> open_after False (map fst (events d))"

definition same_sent :: "daemon \<Rightarrow> daemon \<Rightarrow> bool" where
  "same_sent d d' \<longleftrightarrow> sent_queries (events d') = sent_queries (events d)"

section \<open>Concrete runs\<close>

text \<open>
  The globals of a daemon configured as node 1 of cluster \<^verbatim>\<open>test\<close>, as
  \<open>main_config\<close> leaves them, and the environments at which the properties below
  are evaluated.
\<close>

definition daemon_options :: t_configuration_options where
  "daemon_options =
     \<lparr> node = 1, cluster_name = ''test'', conninfo = ''host=node1'',
       failover = AUTOMATIC_FAILOVER \<rparr>"

definition daemon_globals :: globals where
  "daemon_globals =
     \<lparr> myClusterName = [], local_options = daemon_options, myLocalId = -1,
       promote_command = ''repmgr standby promote'',
       follow_command = ''repmgr standby follow'' \<rparr>"

text \<open>
  Five peers are registered, nodes 2 to 6, and one of them answers \<^verbatim>\<open>5/08\<close> with the
  one row that \<^verbatim>\<open>repmgr_get_last_standby_location()\<close> returns; the others cannot be
  reached.  In \<open>minority_env\<close> the peer that answers is the second row of the node
  list, in \<open>minority_first_env\<close> it is the first.
\<close>

definition minority_cluster :: "string \<Rightarrow> failover_env" where
  "minority_cluster answering =
     \<lparr> replay_location = Some ''5/10'',
       repl_nodes = [\<lparr> row_id = 2, row_cluster = [], row_conninfo = ''host=node2'' \<rparr>,
                     \<lparr> row_id = 3, row_cluster = [], row_conninfo = ''host=node3'' \<rparr>,
                     \<lparr> row_id = 4, row_cluster = [], row_conninfo = ''host=node4'' \<rparr>,
                     \<lparr> row_id = 5, row_cluster = [], row_conninfo = ''host=node5'' \<rparr>,
                     \<lparr> row_id = 6, row_cluster = [], row_conninfo = ''host=node6'' \<rparr>],
       repl_status = [2, 3, 4, 5, 6],
       nodes_query_ok = True,
       node_probe = (\<lambda>c. if c = answering then TuplesOk [''5/08''] else ConnectionBad) \<rparr>"

definition minority_env :: failover_env where
  "minority_env = minority_cluster ''host=node3''"

definition minority_first_env :: failover_env where
  "minority_first_env = minority_cluster ''host=node2''"

text \<open>No other node is registered; the local replay location is \<^verbatim>\<open>5/10\<close>.\<close>

definition lone_env :: failover_env where
  "lone_env =
     \<lparr> replay_location = Some ''5/10'', repl_nodes = [], repl_status = [],
       nodes_query_ok = True, node_probe = (\<lambda>c. ConnectionBad) \<rparr>"

text \<open>One peer, node 2, answers \<^verbatim>\<open>5/08\<close>; the local replay location is \<^verbatim>\<open>5/10\<close>.\<close>

definition one_peer_env :: failover_env where
  "one_peer_env =
     \<lparr> replay_location = Some ''5/10'',
       repl_nodes = [\<lparr> row_id = 2, row_cluster = [], row_conninfo = ''host=node2'' \<rparr>],
       repl_status = [2],
       nodes_query_ok = True,
       node_probe = (\<lambda>c. TuplesOk [''5/08'']) \<rparr>"

text \<open>
  Two peers answer \<^verbatim>\<open>5/08\<close> and \<^verbatim>\<open>4/FF\<close>, each with the one row that
  \<^verbatim>\<open>repmgr_get_last_standby_location()\<close> returns; the local location is \<^verbatim>\<open>5/10\<close>.
\<close>

definition two_peers_env :: failover_env where
  "two_peers_env =
     \<lparr> replay_location = Some ''5/10'',
       repl_nodes = [\<lparr> row_id = 2, row_cluster = [], row_conninfo = ''host=node2'' \<rparr>,
                     \<lparr> row_id = 3, row_cluster = [], row_conninfo = ''host=node3'' \<rparr>],
       repl_status = [2, 3],
       nodes_query_ok = True,
       node_probe = (\<lambda>c. if c = ''host=node2'' then TuplesOk [''5/08'']
                           else if c = ''host=node3'' then TuplesOk [''4/FF'']
                           else ConnectionBad) \<rparr>"

text \<open>The query for the node's own replay location fails.\<close>

definition replay_failed_env :: failover_env where
  "replay_failed_env = one_peer_env \<lparr> replay_location := None \<rparr>"

text \<open>
  The node table of cluster \<^verbatim>\<open>test\<close> with the local node 1 and the standby 2,
  and one row of a cluster whose name is empty.
\<close>

definition registry_env :: failover_env where
  "registry_env =
     \<lparr> replay_location = Some ''5/10'',
       repl_nodes = [\<lparr> row_id = 1, row_cluster = ''test'', row_conninfo = ''host=node1'' \<rparr>,
                     \<lparr> row_id = 2, row_cluster = ''test'', row_conninfo = ''host=node2'' \<rparr>,
                     \<lparr> row_id = 3, row_cluster = [], row_conninfo = ''host=other'' \<rparr>],
       repl_status = [1, 2, 3],
       nodes_query_ok = True,
       node_probe = (\<lambda>c. ConnectionBad) \<rparr>"

text \<open>The seed the election would have from the local location \<^verbatim>\<open>5/10\<close>.\<close>

definition local_seed :: nodeInfo where
  "local_seed =
     \<lparr> nodeId = Some (-1), xlog_location = \<lparr> xlogid = Some 5, xrecoff = Some 0x10 \<rparr>,
       is_ready = Some True \<rparr>"

text \<open>The one peer answers a text that is no location.\<close>

definition garbled_peer_env :: failover_env where
  "garbled_peer_env = one_peer_env \<lparr> node_probe := (\<lambda>c. TuplesOk [''garbage'']) \<rparr>"

text \<open>
  A step of the monitoring loop in which everything answers: the standby has received
  up to \<^verbatim>\<open>0/200\<close> and replayed up to \<^verbatim>\<open>0/180\<close>, the primary reports
  \<^verbatim>\<open>0/100\<close>, so the first difference is negative.  Its insert, for primary 5 and
  standby 1.
\<close>

definition steady_env :: monitor_env where
  "steady_env =
     \<lparr> reset_restores = (\<lambda>k. False), new_master = (\<lambda>k. None), election_env = lone_env,
       still_standby = True, cancel_delivered = True,
       local_xlog = Some (''2011-06-01 12:00:00+00'', ''0/200'', ''0/180''),
       primary_xlog = Some ''0/100'', send_transmitted = True \<rparr>"

definition steady_insert :: sql where
  "steady_insert = InsertMonitor 5 1 ''2011-06-01 12:00:00+00'' ''0/100'' ''0/200'' (- 256) 128"

text \<open>The same step with a standby at segment \<^verbatim>\<open>FFFFFFFF\<close> and a primary at \<^verbatim>\<open>0/0\<close>.\<close>

definition skewed_env :: monitor_env where
  "skewed_env = steady_env \<lparr> local_xlog := Some (''2011-06-01 12:00:00+00'', ''FFFFFFFF/0'', ''FFFFFFFF/0''),
                              primary_xlog := Some ''0/0'' \<rparr>"

text \<open>
  The first registration of node 1 on empty tables, and a second run that starts before
  the standby has replayed the row the first one inserted.
\<close>

definition first_registration :: "(registry \<times> daemon) \<times> unit outcome" where
  "first_registration =
     checkNodeConfiguration daemon_globals registering_env empty_registry (fresh_daemon 5)"

definition early_second_registration :: "(registry \<times> daemon) \<times> unit outcome" where
  "early_second_registration =
     checkNodeConfiguration daemon_globals registering_env (fst (fst first_registration))
       (fresh_daemon 5)"
section \<open>Properties of the location scanner\<close>

lemma isxdigit_not_space: "isxdigit c \<Longrightarrow> \<not> isspace c"
  by (auto simp: isxdigit_def isspace_def Let_def)

lemma isxdigit_not_special:
  "isxdigit c \<Longrightarrow> c \<noteq> CHR ''-'' \<and> c \<noteq> CHR ''+'' \<and> c \<noteq> CHR ''x'' \<and> c \<noteq> CHR ''X'' \<and> c \<noteq> CHR ''/''"
  by (auto simp: isxdigit_def Let_def)

lemma scan_0x_digits:
  assumes "h \<noteq> []" "\<forall>c\<in>set h. isxdigit c" "stops_number rest"
  shows "scan_0x (h @ rest) = (False, h @ rest)"
proof (cases h)
  case Nil
  with assms show ?thesis by simp
next
  case (Cons a t)
  show ?thesis
  proof (cases t)
    case Nil
    with Cons assms show ?thesis
      by (cases rest) (auto simp: stops_number_def)
  next
    case (Cons b u)
    with \<open>h = a # t\<close> assms isxdigit_not_special [of b] show ?thesis by simp
  qed
qed

lemma takeWhile_digits:
  assumes "\<forall>c\<in>set h. isxdigit c" "stops_number rest"
  shows "takeWhile isxdigit (h @ rest) = h" "dropWhile isxdigit (h @ rest) = rest"
  using assms by (cases rest; simp add: stops_number_def)+

lemma scan_X_digits:
  assumes "h \<noteq> []" "\<forall>c\<in>set h. isxdigit c" "hex_value h < 2 ^ 32" "stops_number rest"
  shows "scan_X (h @ rest) = Conv (of_nat (hex_value h)) rest"
proof -
  obtain a t where h: "h = a # t" using assms(1) by (cases h) auto
  have a: "isxdigit a" using assms(2) h by simp
  have 1: "dropWhile isspace (h @ rest) = h @ rest"
    using isxdigit_not_space [OF a] h by simp
  have 2: "scan_sign (h @ rest) = (False, h @ rest)"
    using isxdigit_not_special [OF a] h by simp
  show ?thesis
    using assms(1,3)
    by (simp add: scan_X_def 1 2 scan_0x_digits [OF assms(1,2,4)] takeWhile_digits [OF assms(2,4)])
qed

lemma scan_hex_fields:
  assumes "hex_field h1" "hex_field h2"
  shows "sscanf_XX (h1 @ CHR ''/'' # h2) = Scan2 (of_nat (hex_value h1)) (of_nat (hex_value h2))"
proof -
  have s1: "stops_number (CHR ''/'' # h2)" by (simp add: stops_number_def isxdigit_def)
  have s2: "stops_number []" by (simp add: stops_number_def)
  have 1: "scan_X (h1 @ CHR ''/'' # h2) = Conv (of_nat (hex_value h1)) (CHR ''/'' # h2)"
    using assms(1) s1 by (intro scan_X_digits) (auto simp: hex_field_def)
  have 2: "scan_X h2 = Conv (of_nat (hex_value h2)) []"
    using assms(2) s2 scan_X_digits [of h2 "[]"] by (auto simp: hex_field_def)
  show ?thesis by (simp add: sscanf_XX_def 1 2)
qed

lemma bytes_no_wrap:
  assumes "s < 2 ^ 32" "off < 2 ^ 32"
  shows "unat ((ucast (of_nat s :: 32 word) :: 64 word) * 16 * 1024 * 1024 * 255
               + ucast (of_nat off :: 32 word)) = s * 0xFF000000 + off"
proof -
  have a: "(ucast (of_nat s :: 32 word) :: 64 word) = of_nat s"
    using assms(1) by (simp add: unsigned_of_nat take_bit_nat_eq_self)
  have b: "(ucast (of_nat off :: 32 word) :: 64 word) = of_nat off"
    using assms(2) by (simp add: unsigned_of_nat take_bit_nat_eq_self)
  have d: "s * 0xFF000000 + off < 2 ^ 64" using assms by simp
  have "unat (of_nat (s * 0xFF000000 + off) :: 64 word) = (s * 0xFF000000 + off) mod 2 ^ LENGTH(64)"
    by (rule unat_of_nat)
  also have "\<dots> = s * 0xFF000000 + off" using d by simp
  finally have e: "unat (of_nat (s * 0xFF000000 + off) :: 64 word) = s * 0xFF000000 + off" .
  have f: "(of_nat (s * 0xFF000000 + off) :: 64 word) = of_nat s * 0xFF000000 + of_nat off"
    by simp
  show ?thesis using e unfolding f by (simp add: a b mult.commute)
qed


subsection \<open>What the scanner accepts\<close>

lemma scan_sign_shape:
  "scan_sign s = (neg, r) \<Longrightarrow> \<exists>sg. s = sg @ r \<and> sg \<in> {[], ''-'', ''+''}"
  by (cases s) (auto split: if_splits)

lemma scan_0x_shape:
  "scan_0x s = (prefixed, r) \<Longrightarrow>
     \<exists>px. s = px @ r \<and> px \<in> {[], ''0x'', ''0X''} \<and> (prefixed \<longleftrightarrow> px \<noteq> [])"
  by (induction s rule: scan_0x.induct) (auto split: if_splits)

lemma scan_X_Conv:
  assumes "scan_X s = Conv v rest"
      and "scan_sign (dropWhile isspace s) = (neg, s2)"
      and "scan_0x s2 = (prefixed, s3)"
  shows "(takeWhile isxdigit s3 \<noteq> [] \<or> prefixed) \<and> rest = dropWhile isxdigit s3"
proof -
  have "scan_X s =
          (if takeWhile isxdigit s3 = [] \<and> \<not> prefixed then NoConv
           else if 2 ^ 32 \<le> hex_value (takeWhile isxdigit s3) then ConvOverflow
           else Conv (if neg then - of_nat (hex_value (takeWhile isxdigit s3))
                      else of_nat (hex_value (takeWhile isxdigit s3)))
                     (dropWhile isxdigit s3))"
    unfolding scan_X_def assms(2) assms(3) Let_def prod.case ..
  with assms(1) show ?thesis by (simp split: if_splits)
qed

lemma number_textI:
  assumes "\<forall>c\<in>set ws. isspace c" "sg \<in> {[], ''-'', ''+''}" "px \<in> {[], ''0x'', ''0X''}"
          "\<forall>c\<in>set h. isxdigit c" "h \<noteq> [] \<or> px \<noteq> []"
  shows "number_text (ws @ sg @ px @ h)"
  unfolding number_text_def using assms by blast

lemma scan_X_shape:
  assumes "scan_X s = Conv v rest"
  shows "\<exists>n. s = n @ rest \<and> number_text n"
proof -
  obtain neg s2 where sg: "scan_sign (dropWhile isspace s) = (neg, s2)"
    by (cases "scan_sign (dropWhile isspace s)")
  obtain prefixed s3 where pf: "scan_0x s2 = (prefixed, s3)"
    by (cases "scan_0x s2")
  from scan_sign_shape [OF sg] obtain sgn where
    1: "dropWhile isspace s = sgn @ s2" "sgn \<in> {[], ''-'', ''+''}" by blast
  from scan_0x_shape [OF pf] obtain px where
    2: "s2 = px @ s3" "px \<in> {[], ''0x'', ''0X''}" "prefixed \<longleftrightarrow> px \<noteq> []" by blast
  let ?ws = "takeWhile isspace s"
  let ?h = "takeWhile isxdigit s3"
  from scan_X_Conv [OF assms sg pf] have
    3: "?h \<noteq> [] \<or> prefixed" "rest = dropWhile isxdigit s3" by blast+
  have "s3 = ?h @ rest" unfolding 3(2) by (rule takeWhile_dropWhile_id [symmetric])
  then have "s2 = px @ ?h @ rest" using 2(1) by (rule back_subst [where P = "\<lambda>x. s2 = px @ x", rotated])
  then have "dropWhile isspace s = sgn @ px @ ?h @ rest"
    using 1(1) by (rule back_subst [where P = "\<lambda>x. dropWhile isspace s = sgn @ x", rotated])
  moreover have "s = ?ws @ dropWhile isspace s" by (rule takeWhile_dropWhile_id [symmetric])
  ultimately have "s = ?ws @ sgn @ px @ ?h @ rest"
    by (rule back_subst [where P = "\<lambda>x. s = ?ws @ x", rotated])
  then have eq: "s = (?ws @ sgn @ px @ ?h) @ rest" by (simp only: append_assoc)
  have ws: "\<forall>c\<in>set ?ws. isspace c" by (blast dest: set_takeWhileD)
  have h: "\<forall>c\<in>set ?h. isxdigit c" by (blast dest: set_takeWhileD)
  have nz: "?h \<noteq> [] \<or> px \<noteq> []" using 3(1) 2(3) by blast
  have "number_text (?ws @ sgn @ px @ ?h)"
    by (rule number_textI [OF ws 1(2) 2(2) h nz])
  with eq show ?thesis by blast
qed

lemma Scan2_scannable:
  assumes "sscanf_XX s = Scan2 a b"
  shows "scannable s"
proof -
  from assms obtain r2 r3 where
    1: "scan_X s = Conv a (CHR ''/'' # r2)" and 2: "scan_X r2 = Conv b r3"
    by (auto simp: sscanf_XX_def split: conv.splits list.splits if_splits)
  from scan_X_shape [OF 1] obtain n1 where
    a: "s = n1 @ CHR ''/'' # r2" "number_text n1" by blast
  from scan_X_shape [OF 2] obtain n2 where
    b: "r2 = n2 @ r3" "number_text n2" by blast
  have "s = n1 @ ''/'' @ n2 @ r3" using a(1) b(1) by simp
  then show ?thesis unfolding scannable_def using a(2) b(2) by blast
qed

lemma scannable_has_slash: "scannable s \<Longrightarrow> CHR ''/'' \<in> set s"
  by (auto simp: scannable_def)

lemma two_hex_fields_chars:
  "two_hex_fields s \<Longrightarrow> \<forall>c \<in> set s. isxdigit c \<or> c = CHR ''/''"
  by (auto simp: two_hex_fields_def)

subsection \<open>Every scannable text is converted\<close>

text \<open>
  The converse of \<open>Scan2_scannable\<close>: a text that starts with two numbers separated
  by a slash is converted and nothing is logged, unless one of the numbers does not fit
  32 bits.  So the texts for which \<^verbatim>\<open>walLocationToBytes\<close> returns the sentinel with
  its error line are exactly those that are not scannable.
\<close>

lemma number_text_lead:
  assumes "number_text n"
  obtains ws t where "n = ws @ t" "\<forall>c\<in>set ws. isspace c" "t \<noteq> []" "\<not> isspace (hd t)"
    "\<exists>sg px h. t = sg @ px @ h \<and> sg \<in> {[], ''-'', ''+''} \<and> px \<in> {[], ''0x'', ''0X''}
        \<and> (\<forall>c \<in> set h. isxdigit c) \<and> (h \<noteq> [] \<or> px \<noteq> [])"
proof -
  from assms obtain ws sg px h where
    n: "n = ws @ sg @ px @ h" and ws: "\<forall>c \<in> set ws. isspace c"
    and sg: "sg \<in> {[], ''-'', ''+''}" and px: "px \<in> {[], ''0x'', ''0X''}"
    and h: "\<forall>c \<in> set h. isxdigit c" and nz: "h \<noteq> [] \<or> px \<noteq> []"
    unfolding number_text_def by blast
  have ne: "sg @ px @ h \<noteq> []" using nz by auto
  have "\<not> isspace (hd (sg @ px @ h))"
  proof (cases "sg = []")
    case False
    with sg show ?thesis by (auto simp: isspace_def)
  next
    case True
    show ?thesis
    proof (cases "px = []")
      case False
      with px True show ?thesis by (auto simp: isspace_def)
    next
      case px0: True
      with nz have "h \<noteq> []" by simp
      then have "isxdigit (hd h)" using h by (cases h) auto
      then show ?thesis using True px0 \<open>h \<noteq> []\<close> isxdigit_not_space by simp
    qed
  qed
  with n ws ne sg px h nz show ?thesis by (intro that [of ws "sg @ px @ h"]) blast+
qed

lemma dropWhile_lead:
  assumes "\<forall>c\<in>set ws. isspace c" "t \<noteq> []" "\<not> isspace (hd t)"
  shows "dropWhile isspace ((ws @ t) @ rest) = t @ rest"
proof -
  have "dropWhile isspace (ws @ (t @ rest)) = dropWhile isspace (t @ rest)"
    using assms(1) by (intro dropWhile_append2) simp
  also have "\<dots> = t @ rest" using assms(2,3) by (cases t) auto
  finally show ?thesis by simp
qed

lemma scan_sign_number:
  assumes "sg \<in> {[], ''-'', ''+''}" "px \<in> {[], ''0x'', ''0X''}"
    "\<forall>c \<in> set h. isxdigit c" "h \<noteq> [] \<or> px \<noteq> []"
  shows "scan_sign ((sg @ px @ h) @ rest) = (sg = ''-'', px @ h @ rest)"
proof (cases "sg = []")
  case False
  with assms(1) show ?thesis by auto
next
  case True
  show ?thesis
  proof (cases "px = []")
    case False
    with assms(2) True show ?thesis by auto
  next
    case px0: True
    with assms(4) obtain a t where h: "h = a # t" by (cases h) auto
    with assms(3) have "isxdigit a" by simp
    from isxdigit_not_special [OF this] show ?thesis using True px0 h by simp
  qed
qed


lemma scan_X_unfold:
  assumes "dropWhile isspace s = t" "scan_sign t = (neg, s2)" "scan_0x s2 = (prefixed, s3)"
  shows "scan_X s =
          (if takeWhile isxdigit s3 = [] \<and> \<not> prefixed then NoConv
           else if 2 ^ 32 \<le> hex_value (takeWhile isxdigit s3) then ConvOverflow
           else Conv (if neg then - of_nat (hex_value (takeWhile isxdigit s3))
                      else of_nat (hex_value (takeWhile isxdigit s3)))
                     (dropWhile isxdigit s3))"
  unfolding scan_X_def assms Let_def prod.case ..

lemma scan_X_number:
  assumes "number_text n"
  shows "scan_X (n @ rest) \<noteq> NoConv"
proof -
  from number_text_lead [OF assms] obtain ws' t where
    l: "n = ws' @ t" "\<forall>c\<in>set ws'. isspace c" "t \<noteq> []" "\<not> isspace (hd t)"
    "\<exists>sg px h. t = sg @ px @ h \<and> sg \<in> {[], ''-'', ''+''} \<and> px \<in> {[], ''0x'', ''0X''}
        \<and> (\<forall>c \<in> set h. isxdigit c) \<and> (h \<noteq> [] \<or> px \<noteq> [])" by blast
  from l(5) obtain sg px h where
    t: "t = sg @ px @ h" and sg: "sg \<in> {[], ''-'', ''+''}" and px: "px \<in> {[], ''0x'', ''0X''}"
    and h: "\<forall>c \<in> set h. isxdigit c" and nz: "h \<noteq> [] \<or> px \<noteq> []" by blast
  have d: "dropWhile isspace (n @ rest) = t @ rest"
    unfolding l(1) by (rule dropWhile_lead [OF l(2,3,4)])
  have s: "scan_sign (t @ rest) = (sg = ''-'', px @ h @ rest)"
    unfolding t by (rule scan_sign_number [OF sg px h nz])
  obtain prefixed s3 where z: "scan_0x (px @ h @ rest) = (prefixed, s3)"
    by (cases "scan_0x (px @ h @ rest)")
  have "takeWhile isxdigit s3 \<noteq> [] \<or> prefixed"
  proof (cases "px = []")
    case False
    with px z show ?thesis by auto
  next
    case True
    with nz obtain a u where hh: "h = a # u" by (cases h) auto
    with h have a: "isxdigit a" by simp
    show ?thesis
    proof (cases prefixed)
      case False
      from scan_0x_shape [OF z] False have "s3 = px @ h @ rest" by auto
      with True hh a show ?thesis by simp
    qed simp
  qed
  then show ?thesis unfolding scan_X_unfold [OF d s z] by (auto split: if_splits)
qed

lemma scan_X_number_slash:
  assumes "number_text n"
  shows "scan_X (n @ CHR ''/'' # r) = ConvOverflow \<or> (\<exists>v. scan_X (n @ CHR ''/'' # r) = Conv v (CHR ''/'' # r))"
proof -
  from number_text_lead [OF assms] obtain ws' t where
    l: "n = ws' @ t" "\<forall>c\<in>set ws'. isspace c" "t \<noteq> []" "\<not> isspace (hd t)"
    "\<exists>sg px h. t = sg @ px @ h \<and> sg \<in> {[], ''-'', ''+''} \<and> px \<in> {[], ''0x'', ''0X''}
        \<and> (\<forall>c \<in> set h. isxdigit c) \<and> (h \<noteq> [] \<or> px \<noteq> [])" by blast
  from l(5) obtain sg px h where
    t: "t = sg @ px @ h" and sg: "sg \<in> {[], ''-'', ''+''}" and px: "px \<in> {[], ''0x'', ''0X''}"
    and h: "\<forall>c \<in> set h. isxdigit c" and nz: "h \<noteq> [] \<or> px \<noteq> []" by blast
  let ?rest = "CHR ''/'' # r"
  have st: "stops_number ?rest" by (simp add: stops_number_def isxdigit_def)
  have d: "dropWhile isspace (n @ ?rest) = t @ ?rest"
    unfolding l(1) by (rule dropWhile_lead [OF l(2,3,4)])
  have s: "scan_sign (t @ ?rest) = (sg = ''-'', px @ h @ ?rest)"
    unfolding t by (rule scan_sign_number [OF sg px h nz])
  have "\<exists>prefixed. scan_0x (px @ h @ ?rest) = (prefixed, h @ ?rest) \<and> (prefixed \<or> h \<noteq> [])"
  proof (cases "px = []")
    case False
    with px show ?thesis by auto
  next
    case True
    with nz have "h \<noteq> []" by simp
    from scan_0x_digits [OF this h st] True \<open>h \<noteq> []\<close> show ?thesis by auto
  qed
  then obtain prefixed where z: "scan_0x (px @ h @ ?rest) = (prefixed, h @ ?rest)"
    and p: "prefixed \<or> h \<noteq> []" by blast
  show ?thesis
    unfolding scan_X_unfold [OF d s z] takeWhile_digits [OF h st]
    using p by (auto split: if_splits)
qed

lemma scannable_Scan2:
  assumes "scannable s" "sscanf_XX s \<noteq> ScanUB"
  shows "\<exists>a b. sscanf_XX s = Scan2 a b"
proof -
  from assms(1) obtain n1 n2 rest where
    s: "s = n1 @ CHR ''/'' # n2 @ rest" and n1: "number_text n1" and n2: "number_text n2"
    unfolding scannable_def by auto
  from scan_X_number_slash [OF n1, of "n2 @ rest"] assms(2) obtain a where
    1: "scan_X s = Conv a (CHR ''/'' # n2 @ rest)"
    unfolding s by (auto simp: sscanf_XX_def)
  from scan_X_number [OF n2, of rest] have 2: "scan_X (n2 @ rest) \<noteq> NoConv" .
  from assms(2) 1 2 show ?thesis
    by (cases "scan_X (n2 @ rest)") (auto simp: sscanf_XX_def)
qed

lemma scannable_is_converted:
  assumes "scannable s" "walLocationToBytes s \<noteq> Undefined ScanOverflow"
  shows "\<exists>v. walLocationToBytes s = Returns ([], v)"
proof -
  from assms(2) have "sscanf_XX s \<noteq> ScanUB" by (auto simp: walLocationToBytes_def)
  from scannable_Scan2 [OF assms(1) this] show ?thesis
    by (auto simp: walLocationToBytes_def)
qed

section \<open>Properties of the election\<close>

lemma quiet_simps [simp]:
  "quiet []"
  "quiet (e # t) = (election_event e \<and> quiet t)"
  "quiet (t @ u) = (quiet t \<and> quiet u)"
  by (auto simp: quiet_def)

lemma election_event_simps [simp]:
  "election_event (Log l m)" "election_event (Exec c q)"
  "election_event (Connect a)" "election_event (Finish c)"
  by (simp_all add: election_event_def)

lemma quiet_no_command: "quiet t \<Longrightarrow> no_command t"
  by (auto simp: quiet_def no_command_def election_event_def split: event.splits)

lemma no_command_simps [simp]:
  "no_command []"
  "no_command (e # t) = ((case e of System c \<Rightarrow> False | _ \<Rightarrow> True) \<and> no_command t)"
  "no_command (t @ u) = (no_command t \<and> no_command u)"
  by (auto simp: no_command_def)

lemma obind_Returns_iff:
  "obind m f = Returns y \<longleftrightarrow> (\<exists>x. m = Returns x \<and> f x = Returns y)"
  by (cases m) auto

lemma scan_location_Returns:
  assumes "scan_location res i st = Returns st'"
  shows "nodes st' = nodes st \<and> visible_nodes st' = visible_nodes st \<and> res2 st' = res2 st
         \<and> (quiet (trace st) \<longrightarrow> quiet (trace st')) \<and> (\<exists>rows. res = Live rows)"
  using assms
  by (auto simp: scan_location_def PQgetvalue_def obind_Returns_iff
           split: res_handle.splits option.splits scanned.splits if_splits)

lemma scan_location_not_Exit: "scan_location res i st \<noteq> Exit c"
  by (auto simp: scan_location_def PQgetvalue_def
           split: res_handle.splits option.splits scanned.splits if_splits)

lemma scan_location_dead:
  "\<forall>rows. res \<noteq> Live rows \<Longrightarrow> \<exists>u. scan_location res i st = Undefined u"
  by (cases res) (auto simp: scan_location_def PQgetvalue_def)

lemma probe_node_Returns:
  assumes "probe_node pr row i st = Returns st'"
  shows "visible_nodes st' = visible_nodes st
           + (case pr (row_conninfo row) of TuplesOk rows \<Rightarrow> 1 | _ \<Rightarrow> 0)"
    and "(\<forall>rows. res2 st \<noteq> Live rows) \<longrightarrow> (\<forall>rows. res2 st' \<noteq> Live rows)"
    and "quiet (trace st) \<longrightarrow> quiet (trace st')"
    and "length (nodes st') = length (nodes st)"
    and "i < 50"
  using assms
  by (auto simp: probe_node_def Let_def obind_Returns_iff
           split: if_splits probe.splits dest!: scan_location_Returns)

lemma obind_Exit_iff:
  "obind m f = Exit c \<longleftrightarrow> m = Exit c \<or> (\<exists>x. m = Returns x \<and> f x = Exit c)"
  by (cases m) auto

lemma probe_node_not_Exit: "probe_node pr row i st \<noteq> Exit c"
  by (auto simp: probe_node_def Let_def obind_Exit_iff scan_location_not_Exit
           split: if_splits probe.splits)

lemma probe_nodes_Returns_all:
  assumes "probe_nodes pr rows i st = Returns st'"
  shows "visible_nodes st' = visible_nodes st
           + int (length (filter (\<lambda>r. case pr (row_conninfo r) of TuplesOk rows \<Rightarrow> True | _ \<Rightarrow> False) rows))
         \<and> ((\<forall>rows. res2 st \<noteq> Live rows) \<longrightarrow> (\<forall>rows. res2 st' \<noteq> Live rows))
         \<and> (quiet (trace st) \<longrightarrow> quiet (trace st'))
         \<and> length (nodes st') = length (nodes st)
         \<and> (i + length rows \<le> 50 \<or> rows = [])"
  using assms
proof (induction rows arbitrary: i st)
  case Nil
  then show ?case by simp
next
  case (Cons row rows)
  from Cons.prems obtain st1 where a: "probe_node pr row i st = Returns st1"
    and b: "probe_nodes pr rows (Suc i) st1 = Returns st'"
    by (auto simp: obind_Returns_iff)
  from probe_node_Returns [OF a] Cons.IH [OF b] show ?case
    by (auto split: probe.splits)
qed

lemma probe_nodes_Returns:
  assumes "probe_nodes pr rows i st = Returns st'"
  shows "visible_nodes st' = visible_nodes st
           + int (length (filter (\<lambda>r. case pr (row_conninfo r) of TuplesOk rows \<Rightarrow> True | _ \<Rightarrow> False) rows))"
    and "(\<forall>rows. res2 st \<noteq> Live rows) \<longrightarrow> (\<forall>rows. res2 st' \<noteq> Live rows)"
    and "quiet (trace st) \<longrightarrow> quiet (trace st')"
    and "length (nodes st') = length (nodes st)"
    and "i + length rows \<le> 50 \<or> rows = []"
  using probe_nodes_Returns_all [OF assms] by blast+

lemma probe_nodes_not_Exit: "probe_nodes pr rows i st \<noteq> Exit c"
proof (induction rows arbitrary: i st)
  case Nil
  then show ?case by simp
next
  case (Cons row rows)
  show ?case
    using probe_node_not_Exit [of pr row i st] Cons.IH
    by (cases "probe_node pr row i st") auto
qed

lemma elect_dead:
  assumes "\<forall>rows. res2 st \<noteq> Live rows"
  shows "\<exists>u. elect g numelm st = Undefined u"
proof -
  obtain u where "scan_location (res2 st) numelm st = Undefined u"
    using scan_location_dead [OF assms] by blast
  then show ?thesis by (simp add: elect_def)
qed

lemma initial_election_simps [simp]:
  "visible_nodes (initial_election t) = 1"
  "res2 (initial_election t) = Unassigned"
  "trace (initial_election t) = t"
  "length (nodes (initial_election t)) = 50"
  by (simp_all add: initial_election_def)

lemma quiet_announced [simp]: "quiet (announced g loc)"
  by (simp add: announced_def)

lemma do_failover_cases:
  obtains (replay_failed) "replay_location env = None"
      "do_failover g env =
         ([Exec LocalConn SelectReplayLocation,
           Log LOG_ERR ''PQexec failed. Report an invalid value to not be considered as new primary and exit.'',
           Exec LocalConn (UpdateStandbyLocation (printf_X 0 @ ''/'' @ printf_X 0))],
          Exit ERR_DB_QUERY)"
  | (listing_failed) loc where "replay_location env = Some loc" "\<not> nodes_query_ok env"
      "do_failover g env =
         (announced g loc @ [Log LOG_ERR ''Can't get nodes info'', Finish LocalConn], Exit ERR_BAD_QUERY)"
  | (probe_undefined) loc u where "replay_location env = Some loc" "nodes_query_ok env"
      "probe_nodes (node_probe env) (listed_peers g env) 0 (initial_election (announced g loc)) = Undefined u"
      "do_failover g env = (announced g loc, Undefined u)"
  | (minority) loc st where "replay_location env = Some loc" "nodes_query_ok env"
      "probe_nodes (node_probe env) (listed_peers g env) 0 (initial_election (announced g loc)) = Returns st"
      "visible_nodes st < (1 + int (length (listed_peers g env))) div 2"
      "do_failover g env =
         (trace st @ [Finish LocalConn, Log LOG_ERR ''Can't reach most of the nodes''], Exit ERR_FAILOVER_FAIL)"
  | (seed_undefined) loc st u where "replay_location env = Some loc" "nodes_query_ok env"
      "probe_nodes (node_probe env) (listed_peers g env) 0 (initial_election (announced g loc)) = Returns st"
      "\<not> visible_nodes st < (1 + int (length (listed_peers g env))) div 2"
      "do_failover g env = (trace st @ [Finish LocalConn], Undefined u)"
proof (cases "replay_location env")
  case None
  then show ?thesis using replay_failed by (simp add: do_failover_def)
next
  case (Some loc)
  show ?thesis
  proof (cases "nodes_query_ok env")
    case False
    with Some show ?thesis using listing_failed by (simp add: do_failover_def)
  next
    case True
    let ?p = "probe_nodes (node_probe env) (listed_peers g env) 0 (initial_election (announced g loc))"
    show ?thesis
    proof (cases ?p)
      case (Undefined u)
      with Some True show ?thesis using probe_undefined [of loc u]
        by (simp add: do_failover_def listed_peers_def)
    next
      case (Exit c)
      then show ?thesis
        using probe_nodes_not_Exit by blast
    next
      case (Returns st)
      have dead: "\<forall>rows. res2 (st\<lparr>trace := trace st @ [Finish LocalConn]\<rparr>) \<noteq> Live rows"
        using probe_nodes_Returns(2) [OF Returns] by simp
      obtain u where u: "elect g (length (listed_peers g env)) (st\<lparr>trace := trace st @ [Finish LocalConn]\<rparr>) = Undefined u"
        using elect_dead [OF dead] by blast
      show ?thesis
      proof (cases "visible_nodes st < (1 + int (length (listed_peers g env))) div 2")
        case True
        with Some \<open>nodes_query_ok env\<close> Returns show ?thesis using minority [of loc st]
          by (simp add: do_failover_def listed_peers_def Let_def)
      next
        case False
        with Some \<open>nodes_query_ok env\<close> Returns u show ?thesis using seed_undefined [of loc st u]
          by (simp add: do_failover_def listed_peers_def Let_def)
      qed
    qed
  qed
qed

lemma do_failover_never_returns: "snd (do_failover g env) \<noteq> Returns ()"
  by (rule do_failover_cases [of env g]) auto

lemma do_failover_quiet: "quiet (fst (do_failover g env))"
proof (rule do_failover_cases [of env g])
  fix loc st
  assume "probe_nodes (node_probe env) (listed_peers g env) 0 (initial_election (announced g loc)) = Returns st"
  then have "quiet (trace st)" using probe_nodes_Returns(3) by fastforce
  moreover assume "do_failover g env =
         (trace st @ [Finish LocalConn, Log LOG_ERR ''Can't reach most of the nodes''], Exit ERR_FAILOVER_FAIL)"
  ultimately show ?thesis by simp
next
  fix loc st u
  assume "probe_nodes (node_probe env) (listed_peers g env) 0 (initial_election (announced g loc)) = Returns st"
  then have "quiet (trace st)" using probe_nodes_Returns(3) by fastforce
  moreover assume "do_failover g env = (trace st @ [Finish LocalConn], Undefined u)"
  ultimately show ?thesis by simp
qed simp_all

lemma do_failover_no_command: "no_command (fst (do_failover g env))"
  by (rule quiet_no_command) (rule do_failover_quiet)

lemma scan_location_Live:
  assumes "i < length rows" "sscanf_XX (rows ! i) \<noteq> ScanUB"
  shows "\<exists>st'. scan_location (Live rows) i st = Returns st'"
  using assms by (cases "sscanf_XX (rows ! i)") (auto simp: scan_location_def PQgetvalue_def)

lemma probe_node_answerable:
  assumes "i < 50"
    and "case pr (row_conninfo row) of
           TuplesOk rows \<Rightarrow> i < length rows \<and> sscanf_XX (rows ! i) \<noteq> ScanUB | _ \<Rightarrow> True"
  shows "\<exists>st'. probe_node pr row i st = Returns st'"
proof (cases "pr (row_conninfo row)")
  case (TuplesOk rows)
  with assms(2) have a: "i < length rows" "sscanf_XX (rows ! i) \<noteq> ScanUB" by auto
  show ?thesis
    using TuplesOk assms(1) scan_location_Live [OF a]
    by (fastforce simp: probe_node_def Let_def obind_Returns_iff)
qed (use assms(1) in \<open>simp_all add: probe_node_def Let_def\<close>)

lemma probe_nodes_answerable:
  assumes "i + length peers \<le> 50"
    and "\<forall>k < length peers.
           case pr (row_conninfo (peers ! k)) of
             TuplesOk rows \<Rightarrow> i + k < length rows \<and> sscanf_XX (rows ! (i + k)) \<noteq> ScanUB
           | _ \<Rightarrow> True"
  shows "\<exists>st'. probe_nodes pr peers i st = Returns st'"
  using assms
proof (induction peers arbitrary: i st)
  case Nil
  then show ?case by simp
next
  case (Cons row peers)
  have "i < 50" using Cons.prems(1) by simp
  moreover have "case pr (row_conninfo row) of
           TuplesOk rows \<Rightarrow> i < length rows \<and> sscanf_XX (rows ! i) \<noteq> ScanUB | _ \<Rightarrow> True"
    using Cons.prems(2) [rule_format, of 0] by (auto split: probe.splits)
  ultimately obtain st1 where 1: "probe_node pr row i st = Returns st1"
    using probe_node_answerable by blast
  have "\<forall>k < length peers.
           case pr (row_conninfo (peers ! k)) of
             TuplesOk rows \<Rightarrow> Suc i + k < length rows \<and> sscanf_XX (rows ! (Suc i + k)) \<noteq> ScanUB
           | _ \<Rightarrow> True"
  proof (intro allI impI)
    fix k assume "k < length peers"
    then show "case pr (row_conninfo (peers ! k)) of
             TuplesOk rows \<Rightarrow> Suc i + k < length rows \<and> sscanf_XX (rows ! (Suc i + k)) \<noteq> ScanUB
           | _ \<Rightarrow> True"
      using Cons.prems(2) [rule_format, of "Suc k"] by (auto split: probe.splits)
  qed
  moreover have "Suc i + length peers \<le> 50" using Cons.prems(1) by simp
  ultimately obtain st' where "probe_nodes pr peers (Suc i) st1 = Returns st'"
    using Cons.IH by blast
  with 1 show ?case by simp
qed

subsection \<open>The comparison loop\<close>

text \<open>
  The loop over the candidates runs up to and including index \<open>numelm\<close>.  After
  any completed probing of \<open>P\<close> peers the entry \<open>P\<close> is unwritten, or outside the
  array when \<open>P = 50\<close>; so the loop cannot return a candidate, whatever the seed.
\<close>

lemma XLByteLT_not_Exit: "XLByteLT a b \<noteq> Exit c"
  by (auto simp: XLByteLT_def split: option.splits)

lemma compare_candidate_not_Exit: "compare_candidate ns i best \<noteq> Exit c"
  by (cases "XLByteLT (xlog_location best) (xlog_location (ns ! i))")
     (auto simp: compare_candidate_def XLByteLT_not_Exit split: option.splits bool.splits)

lemma compare_candidate_unwritten:
  "i < length ns \<Longrightarrow> is_ready (ns ! i) = None
     \<Longrightarrow> compare_candidate ns i best = Undefined (UninitNode i)"
  by (simp add: compare_candidate_def)

lemma compare_candidate_outside:
  "length ns \<le> i \<Longrightarrow> compare_candidate ns i best = Undefined (NodesOutOfBounds i)"
  by (simp add: compare_candidate_def)

lemma best_candidate_from_stops:
  assumes "i \<le> numelm"
    and "\<exists>u. \<forall>best. compare_candidate ns numelm best = Undefined u"
  shows "\<exists>u. best_candidate_from ns numelm i best = Undefined u"
  using assms
proof (induction ns numelm i best rule: best_candidate_from.induct)
  case (1 ns numelm i best)
  show ?case
  proof (cases "compare_candidate ns i best")
    case (Undefined u)
    with "1.prems"(1) show ?thesis by (simp add: best_candidate_from.simps [of ns numelm i best])
  next
    case (Exit c)
    then show ?thesis using compare_candidate_not_Exit by blast
  next
    case (Returns b)
    with "1.prems"(2) have "i \<noteq> numelm" by auto
    with "1.prems"(1) have "Suc i \<le> numelm" by simp
    from "1.IH" [OF "1.prems"(1) this "1.prems"(2)] Returns "1.prems"(1)
    show ?thesis by (simp add: best_candidate_from.simps [of ns numelm i best])
  qed
qed

lemma scan_location_nodes:
  "scan_location res i st = Returns st' \<Longrightarrow> nodes st' = nodes st"
  using scan_location_Returns by blast

lemma probe_node_untouched:
  assumes "probe_node pr row i st = Returns st'" "i < k"
  shows "nodes st' ! k = nodes st ! k"
  using assms
  by (auto simp: probe_node_def Let_def obind_Returns_iff split: if_splits probe.splits
           dest!: scan_location_nodes)

lemma probe_nodes_untouched:
  assumes "probe_nodes pr rows i st = Returns st'" "i + length rows \<le> k"
  shows "nodes st' ! k = nodes st ! k"
  using assms
proof (induction rows arbitrary: i st)
  case Nil
  then show ?case by simp
next
  case (Cons row rows)
  from Cons.prems(1) obtain st1 where a: "probe_node pr row i st = Returns st1"
    and b: "probe_nodes pr rows (Suc i) st1 = Returns st'"
    by (auto simp: obind_Returns_iff)
  have "nodes st' ! k = nodes st1 ! k" using Cons.IH [OF b] Cons.prems(2) by simp
  also have "\<dots> = nodes st ! k" using probe_node_untouched [OF a] Cons.prems(2) by simp
  finally show ?case .
qed

lemma selection_never_returns:
  assumes "probe_nodes pr rows 0 (initial_election t) = Returns st"
  shows "\<exists>u. best_candidate_from (nodes st) (length rows) 0 best = Undefined u"
proof (rule best_candidate_from_stops)
  show "0 \<le> length rows" by simp
  have len: "length (nodes st) = 50" using probe_nodes_Returns(4) [OF assms] by simp
  show "\<exists>u. \<forall>best. compare_candidate (nodes st) (length rows) best = Undefined u"
  proof (cases "length rows < 50")
    case True
    have "nodes st ! length rows = nodes (initial_election t) ! length rows"
      using probe_nodes_untouched [OF assms] by simp
    also have "\<dots> = unwritten_node" using True by (simp add: initial_election_def)
    finally have "is_ready (nodes st ! length rows) = None" by (simp add: unwritten_node_def)
    with True len show ?thesis using compare_candidate_unwritten by fastforce
  next
    case False
    with len show ?thesis using compare_candidate_outside by fastforce
  qed
qed

subsection \<open>Evaluation of the concrete runs\<close>

lemmas scan_eval = sscanf_XX_def scan_X_def isspace_def isxdigit_def hex_value_def xdigit_val_def
lemmas election_eval = do_failover_def standby_nodes_query_def listed_peers_def initial_election_def
  probe_node_def scan_location_def PQgetvalue_def elect_def compare_candidate_def XLByteLT_def
  unwritten_node_def announced_def reachable_def Let_def
lemmas example_defs = daemon_globals_def daemon_options_def minority_cluster_def minority_env_def minority_first_env_def lone_env_def one_peer_env_def
  two_peers_env_def replay_failed_env_def registry_env_def local_seed_def

text \<open>
  In the election a text that does not scan is only logged: the candidate entry is
  still marked ready, with whatever \<^verbatim>\<open>uxlogid\<close> and \<^verbatim>\<open>uxrecoff\<close> held, here
  nothing.
\<close>

lemma unparsed_peer_location_is_kept:
  "(case probe_nodes (node_probe garbled_peer_env) (listed_peers daemon_globals garbled_peer_env) 0
           (initial_election []) of
      Returns st \<Rightarrow>
        nodes st ! 0 = \<lparr> nodeId = Some 2, xlog_location = \<lparr> xlogid = None, xrecoff = None \<rparr>,
                         is_ready = Some True \<rparr>
    | _ \<Rightarrow> False)"
  by (simp add: election_eval example_defs garbled_peer_env_def scan_eval)

text \<open>
  A prefix \<^verbatim>\<open>0x\<close> without digits is converted as the number 0, in either field,
  and nothing is logged.
\<close>

lemma bare_prefix_is_converted:
  "walLocationToBytes ''0x/1'' = Returns ([], 1)
   \<and> walLocationToBytes ''1/0x'' = Returns ([], 0xFF000000)
   \<and> scannable ''0x/1'' \<and> scannable ''1/0x''"
proof -
  have a: "walLocationToBytes ''0x/1'' = Returns ([], 1)"
    by (simp add: walLocationToBytes_def scan_eval)
  have b: "walLocationToBytes ''1/0x'' = Returns ([], 0xFF000000)"
    by (simp add: walLocationToBytes_def scan_eval)
  have c: "scannable ''0x/1''"
    by (rule Scan2_scannable [of _ 0 1]) (simp add: scan_eval)
  have d: "scannable ''1/0x''"
    by (rule Scan2_scannable [of _ 1 0]) (simp add: scan_eval)
  from a b c d show ?thesis by simp
qed

section \<open>Properties of the monitoring loop\<close>

subsection \<open>At most one insert in flight\<close>

lemma open_after_append [simp]:
  "open_after opn (xs @ ys) = open_after (open_after opn xs) ys"
  by (induction opn xs rule: open_after.induct) auto

lemma separated_append [simp]:
  "separated opn (xs @ ys) = (separated opn xs \<and> separated (open_after opn xs) ys)"
  by (induction opn xs rule: separated.induct) auto

lemma inert_step [simp]:
  "inert e \<Longrightarrow> open_after opn (e # es) = open_after opn es"
  "inert e \<Longrightarrow> separated opn (e # es) = separated opn es"
  by (cases e; simp add: inert_def)+

lemma inert_steps [simp]:
  "\<forall>e \<in> set es. inert e \<Longrightarrow> open_after opn es = opn"
  "\<forall>e \<in> set es. inert e \<Longrightarrow> separated opn es"
  by (induction es) auto

lemma depth_ok_append_step:
  "depth_ok d \<Longrightarrow> inert e \<Longrightarrow> depth_ok (append_step e d)"
  by (auto simp: depth_ok_def append_step_def)

lemma depth_ok_append_steps:
  "depth_ok d \<Longrightarrow> \<forall>e \<in> set es. inert e \<Longrightarrow> depth_ok (append_steps es d)"
  by (auto simp: depth_ok_def append_steps_def comp_def)

lemma depth_ok_PQreset: "depth_ok d \<Longrightarrow> depth_ok (PQreset_primary r d)"
  by (auto simp: depth_ok_def PQreset_primary_def append_step_def)

lemma depth_ok_CancelQuery: "depth_ok d \<Longrightarrow> primary_busy d \<Longrightarrow> depth_ok (CancelQuery c d)"
  by (auto simp: depth_ok_def CancelQuery_def append_step_def)

lemma CancelQuery_closed:
  "\<not> open_after False (map fst (events (CancelQuery c d)))"
  "primary_busy (CancelQuery c d) = primary_busy d"
  "primary_ok (CancelQuery c d) = primary_ok d"
  by (auto simp: CancelQuery_def append_step_def)

lemma depth_ok_PQexec_primary:
  "depth_ok d \<Longrightarrow> \<not> open_after False (map fst (events d)) \<Longrightarrow> depth_ok (PQexec_primary q d)"
  by (auto simp: depth_ok_def PQexec_primary_def append_step_def)

lemma depth_ok_PQsendQuery: "depth_ok d \<Longrightarrow> depth_ok (PQsendQuery t q d)"
  by (auto simp: depth_ok_def PQsendQuery_def append_step_def)

lemma depth_ok_getMasterConnection: "depth_ok d \<Longrightarrow> \<not> open_after False (map fst (events d)) \<Longrightarrow> depth_ok (getMasterConnection f d)"
  by (auto simp: depth_ok_def getMasterConnection_def append_step_def)

lemma closed_append_step: "closed d \<Longrightarrow> inert e \<Longrightarrow> closed (append_step e d)"
  by (auto simp: closed_def append_step_def)

lemma closed_PQreset: "closed (PQreset_primary r d)"
  by (auto simp: closed_def PQreset_primary_def append_step_def)

lemma closed_getMasterConnection: "closed d \<Longrightarrow> closed (getMasterConnection f d)"
  by (auto simp: closed_def getMasterConnection_def append_step_def inert_def)

lemma depth_ok_getMasterConnection': "depth_ok d \<Longrightarrow> closed d \<Longrightarrow> depth_ok (getMasterConnection f d)"
  by (simp add: depth_ok_getMasterConnection closed_def)

lemma inert_Log [simp]: "inert (Log l m)" "inert (Exec c q)" "inert (Finish c)" "inert (Connect s)"
  "inert GetMasterConnection" "inert (System s)"
  by (simp_all add: inert_def)

lemma restore_connection_depth_ok:
  "depth_ok d \<Longrightarrow> depth_ok (restore_connection env k d)"
proof (induction env k d rule: restore_connection.induct)
  case (1 env k d)
  show ?case
  proof (cases "k < 15 \<and> \<not> primary_ok d")
    case True
    have "depth_ok (PQreset_primary (reset_restores env k)
                     (append_step (Log LOG_WARNING ''Connection to master has been lost, trying to recover...'') d))"
      using "1.prems" by (intro depth_ok_PQreset depth_ok_append_step) simp_all
    with True "1.IH" show ?thesis by (simp add: restore_connection.simps [of env k d])
  next
    case False
    with "1.prems" show ?thesis
      by (auto simp: restore_connection.simps [of env k d] intro: depth_ok_append_step)
  qed
qed

lemma restore_connection_lost:
  "\<not> primary_ok (restore_connection env k d) \<Longrightarrow> k < 15 \<or> closed d
     \<Longrightarrow> closed (restore_connection env k d)"
proof (induction env k d rule: restore_connection.induct)
  case (1 env k d)
  show ?case
  proof (cases "k < 15")
    case True
    note k = this
    show ?thesis
    proof (cases "primary_ok d")
      case True
      with k "1.prems"(1) show ?thesis
        by (auto simp: restore_connection.simps [of env k d] append_step_def split: if_splits)
    next
      case False
      let ?d = "PQreset_primary (reset_restores env k)
                     (append_step (Log LOG_WARNING ''Connection to master has been lost, trying to recover...'') d)"
      have eq: "restore_connection env k d = restore_connection env (Suc k) ?d"
        using k False by (simp add: restore_connection.simps [of env k d])
      have "closed ?d" by (rule closed_PQreset)
      with "1.IH" [OF k False] "1.prems"(1) eq show ?thesis by simp
    qed
  next
    case False
    with "1.prems" show ?thesis by (simp add: restore_connection.simps [of env k d])
  qed
qed

lemma find_new_master_depth_ok:
  "depth_ok d \<Longrightarrow> closed d \<Longrightarrow> depth_ok (find_new_master env k d) \<and> closed (find_new_master env k d)"
proof (induction env k d rule: find_new_master.induct)
  case (1 env k d)
  show ?case
  proof (cases "k < 6")
    case True
    let ?d' = "getMasterConnection (new_master env k) d"
    have a: "depth_ok ?d'" "closed ?d'"
      using "1.prems" by (simp_all add: depth_ok_getMasterConnection' closed_getMasterConnection)
    show ?thesis
    proof (cases "primary_ok ?d'")
      case ok: True
      with True a show ?thesis
        by (simp add: find_new_master.simps [of env k d] Let_def depth_ok_append_step closed_append_step)
    next
      case False
      have "depth_ok (append_step (Log LOG_ERR ''We haven't found a new master, waiting before retry...'') ?d')"
           "closed (append_step (Log LOG_ERR ''We haven't found a new master, waiting before retry...'') ?d')"
        using a by (simp_all add: depth_ok_append_step closed_append_step)
      with "1.IH" [OF True refl False] True False show ?thesis
        by (simp add: find_new_master.simps [of env k d] Let_def)
    qed
  next
    case False
    with "1.prems" show ?thesis by (simp add: find_new_master.simps [of env k d])
  qed
qed

lemma quiet_inert: "quiet t \<Longrightarrow> \<forall>e \<in> set t. inert e"
  by (auto simp: quiet_def election_event_def inert_def split: event.splits)

lemma check_master_depth_ok:
  assumes "depth_ok d"
  shows "depth_ok (fst (check_master g env d))"
proof -
  let ?d1 = "restore_connection env 0 d"
  have d1: "depth_ok ?d1" using assms by (rule restore_connection_depth_ok)
  show ?thesis
  proof (cases "primary_ok ?d1")
    case True
    with d1 show ?thesis by (simp add: check_master_def)
  next
    case False
    then have c: "closed ?d1" by (intro restore_connection_lost) simp_all
    show ?thesis
    proof (cases "failover (local_options g)")
      case MANUAL_FAILOVER
      let ?d = "append_step (Log LOG_ERR ''We couldn't reconnect to master. Now checking if another node has been promoted.'') ?d1"
      have "depth_ok ?d" "closed ?d"
        using d1 c by (simp_all add: depth_ok_append_step closed_append_step)
      then have "depth_ok (find_new_master env 0 ?d)"
        using find_new_master_depth_ok by blast
      with False MANUAL_FAILOVER show ?thesis
        by (simp add: check_master_def Let_def depth_ok_append_step)
    next
      case AUTOMATIC_FAILOVER
      have "depth_ok (append_steps (fst (do_failover g (election_env env))) ?d1)"
        using d1 quiet_inert [OF do_failover_quiet] by (rule depth_ok_append_steps)
      with False AUTOMATIC_FAILOVER show ?thesis by (simp add: check_master_def)
    next
      case NO_FAILOVER
      with False d1 show ?thesis by (simp add: check_master_def)
    qed
  qed
qed

lemma depth_ok_cancel_if_busy:
  assumes "depth_ok d"
  shows "depth_ok (if primary_busy d then CancelQuery c d else d)"
    and "\<not> open_after False (map fst (events (if primary_busy d then CancelQuery c d else d)))"
proof -
  show "depth_ok (if primary_busy d then CancelQuery c d else d)"
    using assms by (simp add: depth_ok_CancelQuery)
  show "\<not> open_after False (map fst (events (if primary_busy d then CancelQuery c d else d)))"
  proof (cases "primary_busy d")
    case True
    then show ?thesis using CancelQuery_closed(1) [of c d] by simp
  next
    case False
    then show ?thesis using assms by (simp add: depth_ok_def)
  qed
qed

lemma not_open_append_step:
  "inert e \<Longrightarrow> \<not> open_after False (map fst (events d))
     \<Longrightarrow> \<not> open_after False (map fst (events (append_step e d)))"
  by (simp add: append_step_def)

lemma depth_ok_CloseConnections:
  assumes "depth_ok d"
  shows "depth_ok (CloseConnections c d)"
proof -
  define d1 where "d1 = (if primary_busy d then CancelQuery c d else d)"
  have a: "depth_ok d1" "\<not> open_after False (map fst (events d1))"
    unfolding d1_def
    by (rule depth_ok_cancel_if_busy(1) [OF assms], rule depth_ok_cancel_if_busy(2) [OF assms])
  have "CloseConnections c d =
          append_step (Finish PrimaryConn)
            ((append_step (Finish LocalConn) d1)
               \<lparr> primary_ok := False, primary_busy := False, outstanding := 0 \<rparr>)"
    by (simp add: CloseConnections_def Let_def d1_def)
  then show ?thesis using a by (simp add: depth_ok_def append_step_def)
qed

lemma MonitorExecute_depth_ok:
  assumes "depth_ok d"
  shows "depth_ok (fst (MonitorExecute g env d))"
proof (cases "check_master g env d")
  case (Pair d1 out)
  have d1: "depth_ok d1" using check_master_depth_ok [OF assms, of g env] Pair by simp
  show ?thesis
  proof (cases out)
    case (Undefined u)
    with Pair d1 show ?thesis by (simp add: MonitorExecute_def)
  next
    case (Exit c)
    with Pair d1 show ?thesis by (simp add: MonitorExecute_def)
  next
    case (Returns u)
    show ?thesis
    proof (cases "still_standby env")
      case False
      with Pair Returns d1 show ?thesis
        by (simp add: MonitorExecute_def depth_ok_CloseConnections depth_ok_append_step)
    next
      case True
      let ?d2 = "if primary_busy d1 then CancelQuery (cancel_delivered env) d1 else d1"
      let ?d3 = "append_step (Exec LocalConn SelectXlogInfo) ?d2"
      let ?d4 = "PQexec_primary SelectCurrentXlog ?d3"
      have d2: "depth_ok ?d2" "\<not> open_after False (map fst (events ?d2))"
        by (rule depth_ok_cancel_if_busy(1) [OF d1], rule depth_ok_cancel_if_busy(2) [OF d1])
      have d3: "depth_ok ?d3" "\<not> open_after False (map fst (events ?d3))"
        using d2 by (simp add: depth_ok_append_step, intro not_open_append_step) simp_all
      have d4: "depth_ok ?d4" using d3 by (rule depth_ok_PQexec_primary)
      show ?thesis
      proof (cases "local_xlog env")
        case None
        with Pair Returns True d3 show ?thesis
          by (simp add: MonitorExecute_def Let_def depth_ok_append_step)
      next
        case (Some x)
        obtain ts r a where x: "x = (ts, r, a)" by (cases x)
        show ?thesis
        proof (cases "if primary_ok ?d4 then primary_xlog env else None")
          case None
          with Pair Returns True Some x d4 show ?thesis
            by (simp add: MonitorExecute_def Let_def depth_ok_append_step)
        next
          case (Some p)
          show ?thesis
          proof (cases "monitor_insert (primary_node ?d4) (node (local_options g)) ts p r a")
            case (Returns y)
            obtain logs q where y: "y = (logs, q)" by (cases y)
            have "depth_ok (append_steps (map (\<lambda>(l, m). Log l m) logs) ?d4)"
              using d4 by (rule depth_ok_append_steps) auto
            then have "depth_ok (PQsendQuery (send_transmitted env) q
                         (append_steps (map (\<lambda>(l, m). Log l m) logs) ?d4))"
              by (rule depth_ok_PQsendQuery)
            with Pair \<open>out = Returns u\<close> True \<open>local_xlog env = Some x\<close> x Some Returns y
            show ?thesis by (simp add: MonitorExecute_def Let_def)
          next
            case (Undefined ub)
            with Pair \<open>out = Returns u\<close> True \<open>local_xlog env = Some x\<close> x Some d4
            show ?thesis by (simp add: MonitorExecute_def Let_def)
          next
            case (Exit c)
            with Pair \<open>out = Returns u\<close> True \<open>local_xlog env = Some x\<close> x Some d4
            show ?thesis by (simp add: MonitorExecute_def Let_def)
          qed
        qed
      qed
    qed
  qed
qed

lemma monitor_loop_depth_ok:
  "depth_ok d \<Longrightarrow> depth_ok (fst (monitor_loop g envs d))"
proof (induction envs arbitrary: d)
  case Nil
  then show ?case by simp
next
  case (Cons env envs)
  obtain d' out where m: "MonitorExecute g env d = (d', out)" by (cases "MonitorExecute g env d")
  have "depth_ok d'" using MonitorExecute_depth_ok [OF Cons.prems, of g env] m by simp
  with Cons.IH m show ?case by (cases out) auto
qed

lemma depth_ok_fresh: "depth_ok (fresh_daemon p)"
  by (simp add: depth_ok_def fresh_daemon_def)

subsection \<open>What a step sends\<close>

lemma lld_difference:
  assumes "- (2 ^ 63) \<le> int (unat x) - int (unat y)" "int (unat x) - int (unat y) < 2 ^ 63"
  shows "lld (x - y) = int (unat x) - int (unat y)"
proof -
  have u: "int (unat x) = uint x" "int (unat y) = uint y" by simp_all
  have "x - y = word_of_int (uint x - uint y)" by (rule word_sub_wi)
  then have "sint (x - y) = signed_take_bit (LENGTH(64) - 1) (uint x - uint y)"
    by (simp only: sint_sbintrunc')
  also have "\<dots> = uint x - uint y"
    using assms unfolding u by (intro signed_take_bit_int_eq_self) simp_all
  finally show ?thesis unfolding u by (simp only: lld_def)
qed

lemma sent_queries_simps [simp]:
  "sent_queries [] = []"
  "sent_queries (es @ fs) = sent_queries es @ sent_queries fs"
  "sent_queries ((SendQuery q, n) # es) = q # sent_queries es"
  "inert e \<Longrightarrow> sent_queries ((e, n) # es) = sent_queries es"
  "sent_queries ((CancelRequest, n) # es) = sent_queries es"
  "sent_queries ((Reset, n) # es) = sent_queries es"
  by (auto simp: sent_queries_def inert_def split: event.splits)

lemma sent_queries_inert: "\<forall>e \<in> set es. inert e \<Longrightarrow> sent_queries (map (\<lambda>e. (e, n)) es) = []"
  by (induction es) (auto simp: sent_queries_def inert_def split: event.splits)

lemma same_sent_refl [simp]: "same_sent d d"
  by (simp add: same_sent_def)

lemma same_sent_trans: "same_sent a b \<Longrightarrow> same_sent b c \<Longrightarrow> same_sent a c"
  by (simp add: same_sent_def)

lemma same_sent_steps [simp]:
  "inert e \<Longrightarrow> same_sent d (append_step e d)"
  "\<forall>e \<in> set es. inert e \<Longrightarrow> same_sent d (append_steps es d)"
  "same_sent d (PQreset_primary r d)"
  "same_sent d (CancelQuery c d)"
  "same_sent d (PQexec_primary q d)"
  "same_sent d (getMasterConnection f d)"
  by (auto simp: same_sent_def append_step_def append_steps_def PQreset_primary_def CancelQuery_def
        PQexec_primary_def getMasterConnection_def sent_queries_inert)

lemma same_sent_CloseConnections: "same_sent d (CloseConnections c d)"
  by (auto simp: same_sent_def CloseConnections_def Let_def append_step_def CancelQuery_def)

lemma same_sent_restore_connection: "same_sent d (restore_connection env k d)"
proof (induction env k d rule: restore_connection.induct)
  case (1 env k d)
  show ?case
  proof (cases "k < 15 \<and> \<not> primary_ok d")
    case True
    let ?d = "PQreset_primary (reset_restores env k)
                (append_step (Log LOG_WARNING ''Connection to master has been lost, trying to recover...'') d)"
    have "same_sent d ?d"
      by (rule same_sent_trans [OF same_sent_steps(1) same_sent_steps(3)]) simp
    moreover have "same_sent ?d (restore_connection env (Suc k) ?d)" using True "1.IH" by simp
    ultimately show ?thesis
      using True by (simp add: restore_connection.simps [of env k d] same_sent_def)
  next
    case False
    then show ?thesis by (auto simp: restore_connection.simps [of env k d])
  qed
qed

lemma same_sent_find_new_master: "same_sent d (find_new_master env k d)"
proof (induction env k d rule: find_new_master.induct)
  case (1 env k d)
  show ?case
  proof (cases "k < 6")
    case True
    let ?d' = "getMasterConnection (new_master env k) d"
    have a: "same_sent d ?d'" by simp
    show ?thesis
    proof (cases "primary_ok ?d'")
      case ok: True
      have "same_sent ?d' (append_step (Log LOG_ERR ''Connected to node, continue monitoring.'') ?d')" by simp
      with a True ok show ?thesis
        by (simp add: find_new_master.simps [of env k d] Let_def same_sent_def)
    next
      case False
      let ?d = "append_step (Log LOG_ERR ''We haven't found a new master, waiting before retry...'') ?d'"
      have "same_sent ?d' ?d" by simp
      moreover have "same_sent ?d (find_new_master env (Suc k) ?d)"
        using "1.IH" [OF True refl False] .
      ultimately show ?thesis using a True False
        by (simp add: find_new_master.simps [of env k d] Let_def same_sent_def)
    qed
  next
    case False
    then show ?thesis by (simp add: find_new_master.simps [of env k d])
  qed
qed

lemma same_sent_check_master: "same_sent d (fst (check_master g env d))"
proof -
  let ?d1 = "restore_connection env 0 d"
  have 1: "same_sent d ?d1" by (rule same_sent_restore_connection)
  show ?thesis
  proof (cases "primary_ok ?d1")
    case True
    with 1 show ?thesis by (simp add: check_master_def)
  next
    case False
    show ?thesis
    proof (cases "failover (local_options g)")
      case MANUAL_FAILOVER
      let ?d = "append_step (Log LOG_ERR ''We couldn't reconnect to master. Now checking if another node has been promoted.'') ?d1"
      have "same_sent ?d1 ?d" by simp
      moreover have "same_sent ?d (find_new_master env 0 ?d)" by (rule same_sent_find_new_master)
      moreover have "same_sent (find_new_master env 0 ?d)
          (append_step (Log LOG_ERR ''We couldn't reconnect for long enough, exiting...'') (find_new_master env 0 ?d))"
        by simp
      ultimately show ?thesis using 1 False MANUAL_FAILOVER
        by (simp add: check_master_def Let_def same_sent_def)
    next
      case AUTOMATIC_FAILOVER
      have "same_sent ?d1 (append_steps (fst (do_failover g (election_env env))) ?d1)"
        using quiet_inert [OF do_failover_quiet] by simp
      with 1 False AUTOMATIC_FAILOVER show ?thesis by (simp add: check_master_def same_sent_def)
    next
      case NO_FAILOVER
      with 1 False show ?thesis by (simp add: check_master_def)
    qed
  qed
qed

lemma monitor_insert_Returns:
  assumes "monitor_insert pn ln ts p r a = Returns (logs, q)"
  shows "\<exists>lp bp lr br la ba.
           walLocationToBytes p = Returns (lp, bp) \<and> walLocationToBytes r = Returns (lr, br)
         \<and> walLocationToBytes a = Returns (la, ba)
         \<and> q = InsertMonitor pn ln ts p r (lld (bp - br)) (lld (br - ba))"
  using assms by (auto simp: monitor_insert_def obind_Returns_iff)

lemma PQsendQuery_sent:
  "sent_queries (events (PQsendQuery t q d)) =
     sent_queries (events d) @ (if primary_ok d \<and> \<not> primary_busy d \<and> t then [q] else [])"
  "primary_node (PQsendQuery t q d) = primary_node d"
  by (auto simp: PQsendQuery_def append_step_def)

lemma primary_node_steps [simp]:
  "primary_node (append_step e d) = primary_node d"
  "primary_node (append_steps es d) = primary_node d"
  "primary_node (PQexec_primary q d) = primary_node d"
  "primary_ok (append_step e d) = primary_ok d"
  "primary_ok (append_steps es d) = primary_ok d"
  "primary_ok (PQexec_primary q d) = primary_ok d"
  "primary_busy (append_step e d) = primary_busy d"
  "primary_busy (append_steps es d) = primary_busy d"
  "\<not> primary_busy (PQexec_primary q d)"
  by (simp_all add: append_step_def append_steps_def PQexec_primary_def)

lemma restore_connection_ok: "primary_ok d \<Longrightarrow> restore_connection env 0 d = d"
  by (simp add: restore_connection.simps [of env 0 d])

lemma check_master_ok: "primary_ok d \<Longrightarrow> check_master g env d = (d, Returns ())"
  by (simp add: check_master_def restore_connection_ok)

subsection \<open>Evaluation of concrete steps\<close>

lemmas monitor_eval = MonitorExecute_def check_master_def restore_connection.simps [of _ 0]
  CancelQuery_def PQexec_primary_def PQsendQuery_def append_step_def append_steps_def
  monitor_insert_def walLocationToBytes_def lld_def fresh_daemon_def Let_def

lemma steady_first_step:
  "MonitorExecute daemon_globals steady_env (fresh_daemon 5) =
     (\<lparr> primary_ok = True, primary_busy = True, outstanding = 1, primary_node = 5,
        events = [(Exec LocalConn SelectXlogInfo, 0), (Exec PrimaryConn SelectCurrentXlog, 0),
                  (SendQuery steady_insert, 1)] \<rparr>,
      Returns ())"
  by (simp add: monitor_eval steady_env_def daemon_globals_def daemon_options_def scan_eval steady_insert_def)

section \<open>Properties of the self-registration\<close>

lemma node_inserts_simps [simp]:
  "node_inserts [] = []"
  "node_inserts (es @ fs) = node_inserts es @ node_inserts fs"
  "node_inserts ((Exec PrimaryConn (InsertNode i c s), n) # es) = InsertNode i c s # node_inserts es"
  "node_inserts ((Log l m, n) # es) = node_inserts es"
  "node_inserts ((Exec LocalConn q, n) # es) = node_inserts es"
  "node_inserts ((Finish k, n) # es) = node_inserts es"
  "node_inserts ((CancelRequest, n) # es) = node_inserts es"
  by (simp_all add: node_inserts_def)

lemma node_inserts_CloseConnections [simp]:
  "node_inserts (events (CloseConnections c d)) = node_inserts (events d)"
  by (simp add: CloseConnections_def CancelQuery_def append_step_def Let_def)

lemma checkNodeConfiguration_found:
  assumes "select_tuples_ok env" "own_rows g (standby_view reg) \<noteq> []"
  shows "checkNodeConfiguration g env reg d =
           ((reg, append_step (Exec LocalConn (SelectNode (node (local_options g)) (cluster_name (local_options g))))
                 (append_step (Log LOG_INFO ''Checking node in cluster'') d)), Returns ())"
  using assms by (simp add: checkNodeConfiguration_def own_rows_def Let_def)

lemma checkNodeConfiguration_missing:
  assumes "select_tuples_ok env" "own_rows g (standby_view reg) = []" "insert_returned env" "insert_accepted env"
  shows "fst (fst (checkNodeConfiguration g env reg d)) =
           reg\<lparr> primary_table := primary_table reg
                    @ [\<lparr> row_id = node (local_options g), row_cluster = cluster_name (local_options g),
                         row_conninfo = conninfo (local_options g) \<rparr>] \<rparr>"
    and "node_inserts (events (snd (fst (checkNodeConfiguration g env reg d)))) =
           node_inserts (events d)
           @ [InsertNode (node (local_options g)) (cluster_name (local_options g)) (conninfo (local_options g))]"
    and "snd (checkNodeConfiguration g env reg d) = Undefined ClearedResult"
  using assms
  by (simp_all add: checkNodeConfiguration_def own_rows_def Let_def PQexec_primary_def append_step_def)

lemmas register_eval = checkNodeConfiguration_def own_rows_def replayed_def PQexec_primary_def
  append_step_def fresh_daemon_def registering_env_def empty_registry_def Let_def

subsection \<open>The quorum test after a completed probing loop\<close>

text \<open>
  When the node's own replay location was read, the node query succeeded and the probes
  are answerable, the probing loop ends with \<open>visible_nodes\<close> equal to one plus the
  number of reachable peers, the daemon leaves with \<^verbatim>\<open>ERR_FAILOVER_FAIL\<close> exactly when
  \<open>visible_nodes < total_nodes div 2\<close> for \<open>total_nodes\<close> one plus the number of
  listed peers, and no command is handed to \<^verbatim>\<open>system\<close>.
\<close>

lemma gate_after_answerable_probes:
  assumes "replay_location env = Some loc" and "nodes_query_ok env"
    and "probes_answerable env (listed_peers g env)"
  shows "(\<exists>st. probe_nodes (node_probe env) (listed_peers g env) 0
                 (initial_election (announced g loc)) = Returns st
              \<and> visible_nodes st = 1 + int (length (filter (reachable env) (listed_peers g env))))
         \<and> (snd (do_failover g env) = Exit ERR_FAILOVER_FAIL \<longleftrightarrow>
              1 + int (length (filter (reachable env) (listed_peers g env)))
                < (1 + int (length (listed_peers g env))) div 2)
         \<and> no_command (fst (do_failover g env))"
proof -
  have "\<exists>st. probe_nodes (node_probe env) (listed_peers g env) 0
                 (initial_election (announced g loc)) = Returns st"
  proof (rule probe_nodes_answerable)
    show "0 + length (listed_peers g env) \<le> 50"
      using assms(3) by (simp add: probes_answerable_def)
    show "\<forall>k < length (listed_peers g env).
           case node_probe env (row_conninfo (listed_peers g env ! k)) of
             TuplesOk rows \<Rightarrow> 0 + k < length rows \<and> sscanf_XX (rows ! (0 + k)) \<noteq> ScanUB
           | _ \<Rightarrow> True"
      using assms(3) by (auto simp: probes_answerable_def split: probe.splits)
  qed
  then obtain st where st: "probe_nodes (node_probe env) (listed_peers g env) 0
                 (initial_election (announced g loc)) = Returns st"
    by blast
  have v: "visible_nodes st = 1 + int (length (filter (reachable env) (listed_peers g env)))"
    using probe_nodes_Returns(1) [OF st] by (simp add: reachable_def [abs_def])
  have "snd (do_failover g env) = Exit ERR_FAILOVER_FAIL \<longleftrightarrow>
          visible_nodes st < (1 + int (length (listed_peers g env))) div 2"
    by (rule do_failover_cases [of env g]) (use assms(1,2) st in auto)
  with st v show ?thesis using do_failover_no_command by auto
qed
text \<open>
  Claim C3.  For every well-formed location string, two hexadecimal fields separated by
  a slash, the first holding the segment number \<open>s\<close> and the second the offset
  \<open>o\<close> (each a 32-bit word), \<^verbatim>\<open>walLocationToBytes\<close> returns exactly
  \<open>s * 0xFF000000 + o\<close>, that is 255 times 16 MiB per segment, and logs nothing.
  The sum is below \<open>2 ^ 64\<close>, so the 64-bit result is the number itself.
\<close>

theorem walLocationToBytes_wellformed:
  assumes "hex_field h1" "hex_field h2"
  shows "\<exists>w. walLocationToBytes (h1 @ ''/'' @ h2) = Returns ([], w)
           \<and> unat w = hex_value h1 * 0xFF000000 + hex_value h2"
  using assms bytes_no_wrap [of "hex_value h1" "hex_value h2"]
  by (simp add: walLocationToBytes_def scan_hex_fields hex_field_def)

theorem walLocationToBytes_wellformed_witness:
  "hex_field ''1'' \<and> hex_field ''A0B0C0D0''
   \<and> hex_value ''1'' = 1 \<and> hex_value ''A0B0C0D0'' = 0xA0B0C0D0
   \<and> (\<exists>w. walLocationToBytes ''1/A0B0C0D0'' = Returns ([], w) \<and> unat w = 0x19FB0C0D0)"
proof -
  have h1: "hex_field ''1''" by (simp add: hex_field_def isxdigit_def hex_value_def xdigit_val_def)
  have h2: "hex_field ''A0B0C0D0''" by (simp add: hex_field_def isxdigit_def hex_value_def xdigit_val_def)
  have v: "hex_value ''1'' = 1" "hex_value ''A0B0C0D0'' = 0xA0B0C0D0"
    by (simp_all add: hex_value_def xdigit_val_def)
  from walLocationToBytes_wellformed [OF h1 h2] show ?thesis
    using h1 h2 v by simp
qed

text \<open>
  Claim C1 says that in every election with \<open>P\<close> listed peers the daemon counts
  \<open>total_nodes = 1 + P\<close> and \<open>visible_nodes\<close> as one plus the number of reachable
  peers, and leaves with \<^verbatim>\<open>ERR_FAILOVER_FAIL\<close>, without a command, when
  \<open>visible_nodes < total_nodes div 2\<close>.  The code does not reach the test in every
  such election: the probe of the peer in row \<open>i\<close> of the node list scans
  \<^verbatim>\<open>PQgetvalue(res2, i, 0)\<close>, row \<open>i\<close> of the peer's answer, which has one row.  With
  five listed peers of which only the second answers, two nodes are visible out of six,
  fewer than three, and the run ends in the scan of a null string instead of
  \<^verbatim>\<open>exit(ERR_FAILOVER_FAIL)\<close>.  When the peer that answers is the first of the list
  the same cluster leaves with \<^verbatim>\<open>ERR_FAILOVER_FAIL\<close>.
\<close>

theorem quorum_gate_not_reached:
  "length (listed_peers daemon_globals minority_env) = 5
   \<and> length (filter (reachable minority_env) (listed_peers daemon_globals minority_env)) = 1
   \<and> 1 + int (length (filter (reachable minority_env) (listed_peers daemon_globals minority_env)))
        < (1 + int (length (listed_peers daemon_globals minority_env))) div 2
   \<and> do_failover daemon_globals minority_env =
       ([Exec LocalConn SelectReplayLocation,
         Exec LocalConn (UpdateStandbyLocation ''5/10''),
         Exec LocalConn (SelectStandbyNodes (-1) [])],
        Undefined NullString)
   \<and> listed_peers daemon_globals minority_first_env = listed_peers daemon_globals minority_env
   \<and> length (filter (reachable minority_first_env) (listed_peers daemon_globals minority_first_env)) = 1
   \<and> snd (do_failover daemon_globals minority_first_env) = Exit ERR_FAILOVER_FAIL"
  by (simp add: election_eval example_defs scan_eval)

text \<open>
  Claim C2 says that the best candidate starts from the local node's own replay
  location and ends as the maximum over the local node and the reachable peers.  The
  code does not use the location it read (\<^verbatim>\<open>last_wal_standby_applied\<close>): after the
  quorum test it scans \<^verbatim>\<open>PQgetvalue(res2, i, 0)\<close>, where \<^verbatim>\<open>res2\<close> belongs to the
  probes.  With no registered peer \<^verbatim>\<open>res2\<close> was never assigned; with one reachable
  peer it was released by \<^verbatim>\<open>PQclear\<close>; with two reachable peers the probe of the
  second already reads row 1 of a one-row result.  None of the three runs reaches the
  comparison of candidates.
\<close>

theorem seed_not_from_local_location:
  "do_failover daemon_globals lone_env =
     ([Exec LocalConn SelectReplayLocation,
       Exec LocalConn (UpdateStandbyLocation ''5/10''),
       Exec LocalConn (SelectStandbyNodes (-1) []),
       Finish LocalConn],
      Undefined UninitResult)
   \<and> snd (do_failover daemon_globals one_peer_env) = Undefined ClearedResult
   \<and> snd (do_failover daemon_globals two_peers_env) = Undefined NullString"
  by (simp add: election_eval example_defs scan_eval)

text \<open>
  Claim C4, as amended.  Whatever a step of the monitoring loop sends to the primary is
  the insert of its sample: the locations read from the standby and the primary, with
  \<open>bytes_behind_receive\<close> the difference of the byte numbers of the primary's and
  the received location and \<open>bytes_behind_apply\<close> the difference of those of the
  received and the replayed location, both taken in 64-bit arithmetic and printed as
  signed numbers.  A step in which a sample is due sends it, whatever the sign of the
  differences.  The printed number is the true difference whenever that lies in
  \<open>-2^63 \<dots> 2^63 - 1\<close>; a negative difference in that range is recorded as it is.
\<close>

theorem lag_sample:
  assumes "MonitorExecute g env d = (d', out)"
  shows "\<exists>qs. sent_queries (events d') = sent_queries (events d) @ qs
            \<and> (\<forall>q \<in> set qs. recorded_lag g env (primary_node d') q)
            \<and> (sample_due env d \<longrightarrow> qs \<noteq> [])
            \<and> (\<forall>x y. - (2 ^ 63) \<le> int (unat x) - int (unat y) \<and> int (unat x) - int (unat y) < 2 ^ 63
                  \<longrightarrow> lld (x - y) = int (unat x) - int (unat y))"
proof -
  have arith: "\<forall>x y. - (2 ^ 63) \<le> int (unat x) - int (unat y) \<and> int (unat x) - int (unat y) < 2 ^ 63
                  \<longrightarrow> lld (x - y) = int (unat x) - int (unat y)"
    using lld_difference by blast
  obtain d1 o1 where cm: "check_master g env d = (d1, o1)" by (cases "check_master g env d")
  have s1: "sent_queries (events d1) = sent_queries (events d)"
    using same_sent_check_master [of d g env] cm by (simp add: same_sent_def)
  have due1: "sample_due env d \<Longrightarrow> d1 = d \<and> o1 = Returns ()"
    using cm by (simp add: sample_due_def check_master_ok)
  let ?d2 = "if primary_busy d1 then CancelQuery (cancel_delivered env) d1 else d1"
  let ?d3 = "append_step (Exec LocalConn SelectXlogInfo) ?d2"
  let ?d4 = "PQexec_primary SelectCurrentXlog ?d3"
  have s4: "sent_queries (events ?d4) = sent_queries (events d)"
       "sent_queries (events ?d3) = sent_queries (events d)"
    using s1 same_sent_steps(4) [of d1 "cancel_delivered env"]
    by (auto simp: same_sent_def PQexec_primary_def append_step_def)
  have ok4: "primary_ok ?d4 = primary_ok d1" "primary_node ?d4 = primary_node d1"
    by (auto simp: CancelQuery_def append_step_def)
  consider (stop) "\<exists>u. o1 = Undefined u" | (exit) "\<exists>c. o1 = Exit c"
    | (promoted) "o1 = Returns ()" "\<not> still_standby env"
    | (no_local) "o1 = Returns ()" "still_standby env" "local_xlog env = None"
    | (no_primary) ts r a where "o1 = Returns ()" "still_standby env" "local_xlog env = Some (ts, r, a)"
        "(if primary_ok ?d4 then primary_xlog env else None) = None"
    | (no_insert) ts r a p where "o1 = Returns ()" "still_standby env" "local_xlog env = Some (ts, r, a)"
        "(if primary_ok ?d4 then primary_xlog env else None) = Some p"
        "\<forall>y. monitor_insert (primary_node ?d4) (node (local_options g)) ts p r a \<noteq> Returns y"
    | (insert) ts r a p logs q where "o1 = Returns ()" "still_standby env" "local_xlog env = Some (ts, r, a)"
        "(if primary_ok ?d4 then primary_xlog env else None) = Some p"
        "monitor_insert (primary_node ?d4) (node (local_options g)) ts p r a = Returns (logs, q)"
    by (cases o1; cases "local_xlog env"; cases "if primary_ok ?d4 then primary_xlog env else None") 
       (auto, blast)
  then show ?thesis
  proof cases
    case stop
    with assms cm s1 due1 arith show ?thesis by (auto simp: MonitorExecute_def)
  next
    case exit
    with assms cm s1 due1 arith show ?thesis by (auto simp: MonitorExecute_def)
  next
    case promoted
    have "same_sent d1 (CloseConnections (cancel_delivered env)
             (append_step (Log LOG_ERR ''It seems like we have been promoted, so exit from monitoring...'') d1))"
      by (rule same_sent_trans [OF same_sent_steps(1) same_sent_CloseConnections]) simp
    with promoted assms cm s1 arith show ?thesis
      by (auto simp: MonitorExecute_def same_sent_def sample_due_def)
  next
    case no_local
    with assms cm s4 arith show ?thesis
      by (auto simp: MonitorExecute_def Let_def append_step_def sample_due_def)
  next
    case no_primary
    have "\<not> sample_due env d"
    proof
      assume a: "sample_due env d"
      with due1 have "d1 = d" by simp
      with a no_primary(4) ok4(1) show False by (auto simp: sample_due_def split: if_splits)
    qed
    with no_primary assms cm s4 arith show ?thesis
      by (auto simp: MonitorExecute_def Let_def append_step_def)
  next
    case no_insert
    have "\<not> sample_due env d"
    proof
      assume a: "sample_due env d"
      with due1 have "d1 = d" by simp
      with a no_insert(3,4) ok4(1) obtain x y z where
        "walLocationToBytes p = Returns x" "walLocationToBytes r = Returns y" "walLocationToBytes a = Returns z"
        by (auto simp: sample_due_def split: if_splits)
      then have "\<exists>y. monitor_insert (primary_node ?d4) (node (local_options g)) ts p r a = Returns y"
        by (cases x; cases y; cases z) (simp add: monitor_insert_def)
      with no_insert(5) show False by blast
    qed
    moreover have "d' = ?d4"
      using no_insert assms cm
      by (cases "monitor_insert (primary_node ?d4) (node (local_options g)) ts p r a")
         (auto simp: MonitorExecute_def Let_def)
    ultimately show ?thesis using s4 arith by auto
  next
    case insert
    let ?d5 = "append_steps (map (\<lambda>(l, m). Log l m) logs) ?d4"
    have d': "d' = PQsendQuery (send_transmitted env) q ?d5"
      using insert assms cm by (auto simp: MonitorExecute_def Let_def)
    have "\<forall>e \<in> set (map (\<lambda>(l, m). Log l m) logs). inert e" by auto
    then have "same_sent ?d4 ?d5" by (rule same_sent_steps(2))
    then have s5: "sent_queries (events ?d5) = sent_queries (events d)"
      using s4(1) by (simp only: same_sent_def)
    have p: "primary_xlog env = Some p" "primary_ok d1"
      using insert(4) ok4(1) by (auto split: if_splits)
    have pn: "primary_node d' = primary_node ?d4"
      unfolding d' by (simp add: PQsendQuery_sent(2))
    have rl: "recorded_lag g env (primary_node d') q"
      using monitor_insert_Returns [OF insert(5)] insert(3) p(1)
      unfolding recorded_lag_def pn by blast
    have sent: "sent_queries (events d') = sent_queries (events d)
                  @ (if primary_ok d1 \<and> send_transmitted env then [q] else [])"
      unfolding d' PQsendQuery_sent(1) s5 using ok4(1) by simp
    have "sample_due env d \<Longrightarrow> primary_ok d1 \<and> send_transmitted env"
      using due1 by (auto simp: sample_due_def)
    with rl sent arith show ?thesis by auto
  qed
qed

text \<open>
  Witness for C4: the primary at \<^verbatim>\<open>0/100\<close> behind a standby that has received
  \<^verbatim>\<open>0/200\<close>; the sample is sent with \<open>bytes_behind_receive = -256\<close>.
\<close>

theorem lag_sample_witness:
  "MonitorExecute daemon_globals steady_env (fresh_daemon 5) =
     (\<lparr> primary_ok = True, primary_busy = True, outstanding = 1, primary_node = 5,
        events = [(Exec LocalConn SelectXlogInfo, 0), (Exec PrimaryConn SelectCurrentXlog, 0),
                  (SendQuery steady_insert, 1)] \<rparr>,
      Returns ())
   \<and> recorded_lag daemon_globals steady_env 5
         (InsertMonitor 5 1 ''2011-06-01 12:00:00+00'' ''0/100'' ''0/200'' (- 256) 128)
   \<and> walLocationToBytes ''0/100'' = Returns ([], 256)
   \<and> walLocationToBytes ''0/200'' = Returns ([], 512)
   \<and> lld (256 - 512) = int (unat (256 :: 64 word)) - int (unat (512 :: 64 word))"
proof -
  have r: "- (2 ^ 63) \<le> int (unat (256 :: 64 word)) - int (unat (512 :: 64 word))
           \<and> int (unat (256 :: 64 word)) - int (unat (512 :: 64 word)) < 2 ^ 63"
    by simp
  have w: "walLocationToBytes ''0/100'' = Returns ([], 256)" "walLocationToBytes ''0/200'' = Returns ([], 512)"
    by (simp_all add: walLocationToBytes_def scan_eval)
  from lag_sample [OF steady_first_step] obtain qs where
    q: "[steady_insert] = sent_queries (events (fresh_daemon 5)) @ qs"
       "\<forall>q \<in> set qs. recorded_lag daemon_globals steady_env 5 q"
    and a: "\<forall>x y :: 64 word. - (2 ^ 63) \<le> int (unat x) - int (unat y)
                \<and> int (unat x) - int (unat y) < 2 ^ 63
              \<longrightarrow> lld (x - y) = int (unat x) - int (unat y)"
    by auto
  have "qs = [steady_insert]" using q(1) by (simp add: fresh_daemon_def)
  with q(2) have "recorded_lag daemon_globals steady_env 5 steady_insert" by simp
  moreover have "lld (256 - 512) = int (unat (256 :: 64 word)) - int (unat (512 :: 64 word))"
    using a r by blast
  ultimately show ?thesis using w steady_first_step by (simp add: steady_insert_def)
qed

text \<open>
  Counterexample to C4 as stated, without a bound: for the primary at \<^verbatim>\<open>0/0\<close> and
  the standby at \<^verbatim>\<open>FFFFFFFF/0\<close> the difference of the byte numbers is
  \<open>-18374686475393433600\<close>, below \<open>-2^63\<close>, and the sample carries the positive
  number \<open>72057598316118016\<close>.
\<close>

theorem lag_sample_counterexample:
  "walLocationToBytes ''0/0'' = Returns ([], 0)
   \<and> walLocationToBytes ''FFFFFFFF/0'' = Returns ([], 0xFEFFFFFF01000000)
   \<and> sent_queries (events (fst (MonitorExecute daemon_globals skewed_env (fresh_daemon 5)))) =
        [InsertMonitor 5 1 ''2011-06-01 12:00:00+00'' ''0/0'' ''FFFFFFFF/0'' 72057598316118016 0]
   \<and> int (unat (0 :: 64 word)) - int (unat (0xFEFFFFFF01000000 :: 64 word)) = - 18374686475393433600"
  by (simp add: monitor_eval skewed_env_def steady_env_def daemon_globals_def daemon_options_def scan_eval)

text \<open>
  Claim C5, as amended.  For every text that is not scannable, that is, which does not
  start with two hexadecimal numbers separated by a slash, \<^verbatim>\<open>walLocationToBytes\<close>
  returns the sentinel 0 and logs one error line naming the text, provided the
  conversion is defined at all (no number in it exceeds 32 bits).  A number here is
  what \<^verbatim>\<open>%X\<close> converts: optional white space, an optional sign, an optional
  \<^verbatim>\<open>0x\<close> prefix and hexadecimal digits, where a prefix without digits counts as
  the number 0 (so \<^verbatim>\<open>0x/1\<close> and \<^verbatim>\<open>1/0x\<close> are scannable and are converted).
\<close>

theorem unscannable_location_is_zero:
  assumes "\<not> scannable s" and "walLocationToBytes s \<noteq> Undefined ScanOverflow"
  shows "walLocationToBytes s = Returns ([(LOG_ERR, ''wrong log location format: '' @ s)], 0)"
proof (cases "sscanf_XX s")
  case (Scan2 a b)
  with assms(1) show ?thesis using Scan2_scannable by blast
qed (use assms(2) in \<open>simp_all add: walLocationToBytes_def\<close>)

text \<open>Witness for C5: the text \<^verbatim>\<open>garbage\<close>.\<close>

theorem unscannable_location_is_zero_witness:
  "\<not> scannable ''garbage'' \<and> walLocationToBytes ''garbage'' \<noteq> Undefined ScanOverflow
   \<and> walLocationToBytes ''garbage'' = Returns ([(LOG_ERR, ''wrong log location format: garbage'')], 0)"
proof -
  have a: "\<not> scannable ''garbage''" using scannable_has_slash [of "''garbage''"] by auto
  have b: "walLocationToBytes ''garbage'' \<noteq> Undefined ScanOverflow"
    by (simp add: walLocationToBytes_def scan_eval)
  show ?thesis using unscannable_location_is_zero [OF a b] a b by simp
qed

text \<open>
  Counterexample to C5 as stated, for every text that is not two hexadecimal fields
  separated by a slash: \<^verbatim>\<open>1/2xyz\<close> is not of that form, and it is converted to
  \<open>1 * 0xFF000000 + 2\<close> without any log line, because the scan stops reading after
  the second number.
\<close>

theorem malformed_location_counterexample:
  "\<not> two_hex_fields ''1/2xyz'' \<and> walLocationToBytes ''1/2xyz'' = Returns ([], 0xFF000002)"
proof -
  have "\<not> two_hex_fields ''1/2xyz''"
    using two_hex_fields_chars [of "''1/2xyz''"] by (auto simp: isxdigit_def)
  then show ?thesis by (simp add: walLocationToBytes_def scan_eval)
qed

text \<open>
  Claim C6 says that the peer list holds exactly the registered standby nodes of the
  configured cluster, without the local node.  The query is built from the globals
  \<^verbatim>\<open>myLocalId\<close> and \<^verbatim>\<open>myClusterName\<close>, which the daemon never sets from its
  configuration: for node 1 of cluster \<^verbatim>\<open>test\<close> the statement excludes node
  \<open>-1\<close> and asks for the cluster with the empty name.  On a node table with the
  local node 1, its fellow standby 2 and a row of a cluster with the empty name, the
  list is that foreign row alone: node 2 is missing and another cluster's node is
  present.
\<close>

theorem peer_list_ignores_configuration:
  "main_config daemon_options ''repmgr standby promote'' ''repmgr standby follow'' = Returns daemon_globals
   \<and> announced daemon_globals ''5/10'' ! 2 = Exec LocalConn (SelectStandbyNodes (-1) [])
   \<and> listed_peers daemon_globals registry_env =
       [\<lparr> row_id = 3, row_cluster = [], row_conninfo = ''host=other'' \<rparr>]"
  by (simp add: election_eval example_defs main_config_def)

text \<open>
  Claim C7, as amended.  When the query for the node's own replay location fails,
  \<^verbatim>\<open>do_failover\<close> logs the failure, publishes the location \<^verbatim>\<open>0/0\<close> with
  \<^verbatim>\<open>pg_update_standby_location\<close> and leaves the process with \<^verbatim>\<open>ERR_DB_QUERY\<close>;
  it neither lists nor probes the peers and starts no command.
\<close>

theorem replay_failure_exits:
  assumes "replay_location env = None"
  shows "do_failover g env =
     ([Exec LocalConn SelectReplayLocation,
       Log LOG_ERR ''PQexec failed. Report an invalid value to not be considered as new primary and exit.'',
       Exec LocalConn (UpdateStandbyLocation ''0/0'')],
      Exit ERR_DB_QUERY)
    \<and> \<not> election_proceeds (fst (do_failover g env))
    \<and> no_command (fst (do_failover g env))"
  using assms
  by (simp add: do_failover_def printf_X.simps xdigit_char_def election_proceeds_def
        asks_for_nodes_def)

text \<open>Witness for C7: the failing query in the environment with one peer.\<close>

theorem replay_failure_exits_witness:
  "replay_location replay_failed_env = None
   \<and> snd (do_failover daemon_globals replay_failed_env) = Exit ERR_DB_QUERY
   \<and> last (fst (do_failover daemon_globals replay_failed_env)) = Exec LocalConn (UpdateStandbyLocation ''0/0'')"
proof -
  have a: "replay_location replay_failed_env = None"
    by (simp add: replay_failed_env_def)
  show ?thesis using replay_failure_exits [OF a, of daemon_globals] a by simp
qed

text \<open>
  Counterexample to C7 as stated (the election proceeds with this node unable to be
  selected): the whole run is three steps on the local connection and an exit; the
  registered peer is not asked.
\<close>

theorem replay_failure_counterexample:
  "do_failover daemon_globals replay_failed_env =
     ([Exec LocalConn SelectReplayLocation,
       Log LOG_ERR ''PQexec failed. Report an invalid value to not be considered as new primary and exit.'',
       Exec LocalConn (UpdateStandbyLocation ''0/0'')],
      Exit ERR_DB_QUERY)
   \<and> \<not> election_proceeds (fst (do_failover daemon_globals replay_failed_env))"
  by (simp add: election_eval example_defs printf_X.simps xdigit_char_def
        election_proceeds_def asks_for_nodes_def)

text \<open>
  Claim C8.  Run the monitoring loop for any number of steps from the daemon that
  \<^verbatim>\<open>main\<close> starts.  At every recorded point of the run at most one asynchronous
  insert is outstanding against the primary, and at the end as well; and the sends are
  separated: between two inserts the daemon has always asked for the earlier one to
  be cancelled (or has reset the connection, which drops it).
\<close>

theorem pipeline_depth:
  assumes "monitor_loop g envs (fresh_daemon p) = (d, out)"
  shows "(\<forall>(e, n) \<in> set (events d). n \<le> 1) \<and> outstanding d \<le> 1
         \<and> separated False (map fst (events d))"
  using monitor_loop_depth_ok [OF depth_ok_fresh, of g envs p] assms
  by (simp add: depth_ok_def)

text \<open>
  Witness for C8: two steps in a row.  The second step finds the first insert in
  flight, requests its cancellation, and only then sends its own.
\<close>

theorem pipeline_depth_witness:
  "monitor_loop daemon_globals [steady_env, steady_env] (fresh_daemon 5) =
     (\<lparr> primary_ok = True, primary_busy = True, outstanding = 1, primary_node = 5,
        events = [(Exec LocalConn SelectXlogInfo, 0), (Exec PrimaryConn SelectCurrentXlog, 0),
                  (SendQuery steady_insert, 1), (CancelRequest, 0),
                  (Exec LocalConn SelectXlogInfo, 0), (Exec PrimaryConn SelectCurrentXlog, 0),
                  (SendQuery steady_insert, 1)] \<rparr>,
      Returns ())
   \<and> separated False [Exec LocalConn SelectXlogInfo, Exec PrimaryConn SelectCurrentXlog,
                  SendQuery steady_insert, CancelRequest,
                  Exec LocalConn SelectXlogInfo, Exec PrimaryConn SelectCurrentXlog,
                  SendQuery steady_insert]"
proof -
  have run: "monitor_loop daemon_globals [steady_env, steady_env] (fresh_daemon 5) =
     (\<lparr> primary_ok = True, primary_busy = True, outstanding = 1, primary_node = 5,
        events = [(Exec LocalConn SelectXlogInfo, 0), (Exec PrimaryConn SelectCurrentXlog, 0),
                  (SendQuery steady_insert, 1), (CancelRequest, 0),
                  (Exec LocalConn SelectXlogInfo, 0), (Exec PrimaryConn SelectCurrentXlog, 0),
                  (SendQuery steady_insert, 1)] \<rparr>,
      Returns ())"
    by (simp add: monitor_eval steady_env_def daemon_globals_def daemon_options_def scan_eval
          steady_insert_def)
  from pipeline_depth [OF run] run show ?thesis by simp
qed

text \<open>
  Claim C9, as amended.  Let the node table hold at most one row of the local node, let
  the standby show the same rows of the local node as the primary when a run starts
  (it has replayed what was inserted before), and let the queries succeed.  Then after
  two runs of \<^verbatim>\<open>checkNodeConfiguration\<close> the primary holds exactly one row of the
  local node; the first run sends the \<^verbatim>\<open>INSERT\<close> exactly when the standby shows no
  such row; and the second run sends none.  The tables are those left when each run
  stops, wherever it stops.
\<close>

theorem self_registration_idempotent:
  assumes "length (own_rows g (primary_table reg)) \<le> 1"
    and "own_rows g (standby_view reg) = own_rows g (primary_table reg)"
    and "select_tuples_ok e1" "insert_returned e1" "insert_accepted e1" "select_tuples_ok e2"
    and "checkNodeConfiguration g e1 reg (fresh_daemon p) = ((reg1, d1), o1)"
    and "checkNodeConfiguration g e2 (replayed reg1) (fresh_daemon p) = ((reg2, d2), o2)"
  shows "length (own_rows g (primary_table reg2)) = 1
         \<and> (node_inserts (events d1) \<noteq> [] \<longleftrightarrow> own_rows g (standby_view reg) = [])
         \<and> node_inserts (events d2) = []"
proof (cases "own_rows g (standby_view reg) = []")
  case True
  have r1: "reg1 = reg\<lparr> primary_table := primary_table reg
                    @ [\<lparr> row_id = node (local_options g), row_cluster = cluster_name (local_options g),
                         row_conninfo = conninfo (local_options g) \<rparr>] \<rparr>"
    using checkNodeConfiguration_missing(1) [OF assms(3) True assms(4,5), of "fresh_daemon p"] assms(7)
    by simp
  have i1: "node_inserts (events d1) \<noteq> []"
    using checkNodeConfiguration_missing(2) [OF assms(3) True assms(4,5), of "fresh_daemon p"] assms(7)
    by simp
  have own1: "own_rows g (primary_table reg1) =
                [\<lparr> row_id = node (local_options g), row_cluster = cluster_name (local_options g),
                   row_conninfo = conninfo (local_options g) \<rparr>]"
    using True assms(2) by (simp add: r1 own_rows_def)
  then have "own_rows g (standby_view (replayed reg1)) \<noteq> []" by (simp add: replayed_def)
  from checkNodeConfiguration_found [OF assms(6) this, of "fresh_daemon p"] assms(8)
  have "reg2 = replayed reg1" "node_inserts (events d2) = []"
    by (auto simp: append_step_def fresh_daemon_def)
  with own1 i1 True show ?thesis by (simp add: replayed_def)
next
  case False
  from checkNodeConfiguration_found [OF assms(3) False, of "fresh_daemon p"] assms(7)
  have 1: "reg1 = reg" "node_inserts (events d1) = []"
    by (auto simp: append_step_def fresh_daemon_def)
  have "own_rows g (standby_view (replayed reg1)) \<noteq> []"
    using False assms(2) 1 by (simp add: replayed_def)
  from checkNodeConfiguration_found [OF assms(6) this, of "fresh_daemon p"] assms(8)
  have 2: "reg2 = replayed reg1" "node_inserts (events d2) = []"
    by (auto simp: append_step_def fresh_daemon_def)
  have "length (own_rows g (primary_table reg)) = 1"
    using False assms(1,2) by (cases "own_rows g (primary_table reg)") auto
  with 1 2 False show ?thesis by (simp add: replayed_def)
qed

text \<open>Witness for C9: node 1 of cluster \<^verbatim>\<open>test\<close> registering on empty tables.\<close>

theorem self_registration_idempotent_witness:
  "length (own_rows daemon_globals (primary_table empty_registry)) \<le> 1
   \<and> own_rows daemon_globals (standby_view empty_registry) = own_rows daemon_globals (primary_table empty_registry)
   \<and> primary_table (fst (fst (checkNodeConfiguration daemon_globals registering_env
        (replayed (fst (fst (checkNodeConfiguration daemon_globals registering_env empty_registry (fresh_daemon 5)))))
        (fresh_daemon 5)))) =
      [\<lparr> row_id = 1, row_cluster = ''test'', row_conninfo = ''host=node1'' \<rparr>]
   \<and> node_inserts (events (snd (fst (checkNodeConfiguration daemon_globals registering_env empty_registry (fresh_daemon 5))))) =
      [InsertNode 1 ''test'' ''host=node1'']
   \<and> node_inserts (events (snd (fst (checkNodeConfiguration daemon_globals registering_env
        (replayed (fst (fst (checkNodeConfiguration daemon_globals registering_env empty_registry (fresh_daemon 5)))))
        (fresh_daemon 5))))) = []"
proof -
  let ?r1 = "checkNodeConfiguration daemon_globals registering_env empty_registry (fresh_daemon 5)"
  let ?r2 = "checkNodeConfiguration daemon_globals registering_env (replayed (fst (fst ?r1))) (fresh_daemon 5)"
  have a: "length (own_rows daemon_globals (primary_table empty_registry)) \<le> 1"
    "own_rows daemon_globals (standby_view empty_registry) = own_rows daemon_globals (primary_table empty_registry)"
    by (simp_all add: register_eval)
  have e: "select_tuples_ok registering_env" "insert_returned registering_env" "insert_accepted registering_env"
    by (simp_all add: registering_env_def)
  have 1: "?r1 = ((fst (fst ?r1), snd (fst ?r1)), snd ?r1)" by simp
  have 2: "?r2 = ((fst (fst ?r2), snd (fst ?r2)), snd ?r2)" by simp
  from self_registration_idempotent [OF a e e(1) 1 2] a show ?thesis
    by (simp add: register_eval daemon_globals_def daemon_options_def)
qed

text \<open>
  Counterexample to C9 as stated, for any starting state: the row is looked for on the
  standby and inserted on the primary.  When the second run starts before the standby
  has replayed the first insert, it finds no row and sends the \<^verbatim>\<open>INSERT\<close> again,
  although the primary holds the row; on a table that accepts it the local node then
  has two rows.
\<close>

theorem self_registration_counterexample:
  "own_rows daemon_globals (primary_table (fst (fst first_registration))) =
     [\<lparr> row_id = 1, row_cluster = ''test'', row_conninfo = ''host=node1'' \<rparr>]
   \<and> standby_view (fst (fst first_registration)) = []
   \<and> node_inserts (events (snd (fst early_second_registration))) =
       [InsertNode 1 ''test'' ''host=node1'']
   \<and> length (own_rows daemon_globals (primary_table (fst (fst early_second_registration)))) = 2"
  by (simp add: first_registration_def early_second_registration_def register_eval
        daemon_globals_def daemon_options_def node_inserts_def)

text \<open>
  Claim C10 says that the selection loop reads only candidate entries that the probing
  loop wrote, indices \<open>0\<close> to \<open>P - 1\<close>.  The loop runs
  \<^verbatim>\<open>for (i = 0; i <= numelm; i++)\<close> with \<^verbatim>\<open>numelm = P\<close>, so its last turn reads
  \<^verbatim>\<open>nodes[P].is_ready\<close>, which nothing wrote: with one probed peer the read of
  entry 1 is the error branch, and with no peer the read of entry 0.
\<close>

theorem selection_reads_unwritten_entry:
  "(case probe_nodes (node_probe one_peer_env) (listed_peers daemon_globals one_peer_env) 0
           (initial_election []) of
      Returns st \<Rightarrow>
        length (listed_peers daemon_globals one_peer_env) = 1
        \<and> best_candidate_from (nodes st) 1 0 local_seed = Undefined (UninitNode 1)
    | _ \<Rightarrow> False)
   \<and> best_candidate_from (nodes (initial_election [])) 0 0 local_seed = Undefined (UninitNode 0)"
  by (simp add: election_eval example_defs scan_eval best_candidate_from.simps)

end
